theory Spec2Isabelle
  imports Complex_Main
begin

section \<open>The scrap auction workflow of app.js\<close>

text \<open>
  The theory embeds the section "DB operations" of \<^verbatim>\<open>src/app.js\<close>
  (\<^verbatim>\<open>createUser\<close> to \<^verbatim>\<open>setBidAdminStatus\<close>, with \<^verbatim>\<open>initDemo\<close>). The document
  \<^verbatim>\<open>db\<close> that every operation mutates in place is passed explicitly and returned
  updated, together with the value the JavaScript function returns:
  \<^verbatim>\<open>{ error: ... }\<close> is \<open>Inl\<close>, \<^verbatim>\<open>{ box }\<close>, \<^verbatim>\<open>{ bid }\<close>, ... is \<open>Inr\<close>.

  What comes from outside the code is an argument of the model:
  \<^item> \<^verbatim>\<open>makeId\<close> draws a random string, so every operation that calls it takes
    the drawn id as an argument; nothing is assumed about it (it may collide);
  \<^item> \<^verbatim>\<open>new Date().toISOString()\<close> is the argument \<open>now\<close>;
  \<^item> the built-ins \<^verbatim>\<open>String.prototype.toLowerCase\<close> and \<^verbatim>\<open>parseFloat\<close> (on
    strings) are function arguments \<open>toLowerCase\<close> and \<open>parseFloat\<close>;
  \<^item> the sum of two finite numbers, which the language rounds to a binary64 number
    or to an infinity, is the function argument \<open>float_add\<close>.
  \<^verbatim>\<open>saveDb\<close> writes the document to localStorage and does not change it; it is
  left out.
\<close>

subsection \<open>JavaScript values\<close>

text \<open>
  A JavaScript number: a finite value (given as the rational it denotes; \<open>-0\<close> is
  \<open>0\<close>), one of the two infinities, or NaN.

  \<^verbatim>\<open>x + y\<close> on numbers. What the sum of two finite numbers is (the exact sum
  rounded to binary64, an infinity on overflow) is left to \<open>float_add\<close>; the rules
  for NaN and the infinities are written out. \<^verbatim>\<open>x - y\<close> is \<^verbatim>\<open>x + (-y)\<close>, and
  negation is exact.
\<close>

datatype jsnum = Num rat | PosInf | NegInf | NaN

fun js_add :: "(rat \<Rightarrow> rat \<Rightarrow> jsnum) \<Rightarrow> jsnum \<Rightarrow> jsnum \<Rightarrow> jsnum" where
  "js_add float_add (Num a) (Num b) = float_add a b"
| "js_add float_add NaN y = NaN"
| "js_add float_add x NaN = NaN"
| "js_add float_add PosInf NegInf = NaN"
| "js_add float_add NegInf PosInf = NaN"
| "js_add float_add PosInf y = PosInf"
| "js_add float_add x PosInf = PosInf"
| "js_add float_add NegInf y = NegInf"
| "js_add float_add x NegInf = NegInf"

fun js_neg :: "jsnum \<Rightarrow> jsnum" where
  "js_neg (Num a) = Num (- a)"
| "js_neg PosInf = NegInf"
| "js_neg NegInf = PosInf"
| "js_neg NaN = NaN"

definition js_sub :: "(rat \<Rightarrow> rat \<Rightarrow> jsnum) \<Rightarrow> jsnum \<Rightarrow> jsnum \<Rightarrow> jsnum" where
  "js_sub float_add x y = js_add float_add x (js_neg y)"

text \<open>\<^verbatim>\<open>x <= y\<close> on numbers: false as soon as one side is NaN.\<close>

fun js_le :: "jsnum \<Rightarrow> jsnum \<Rightarrow> bool" where
  "js_le NaN y = False"
| "js_le x NaN = False"
| "js_le (Num a) (Num b) = (a \<le> b)"
| "js_le NegInf y = True"
| "js_le x PosInf = True"
| "js_le PosInf y = False"
| "js_le x NegInf = False"

definition isNaN :: "jsnum \<Rightarrow> bool" where
  "isNaN x = (x = NaN)"

text \<open>A number is falsy when it is 0 or NaN; a string when it is empty.\<close>

definition truthy_num :: "jsnum \<Rightarrow> bool" where
  "truthy_num x = (x \<noteq> Num 0 \<and> x \<noteq> NaN)"

text \<open>
  A property of a plain object that may be absent is an \<open>option\<close>; \<open>None\<close> is
  \<^verbatim>\<open>undefined\<close>. \<^verbatim>\<open>v || d\<close> at each type the code uses it at:
\<close>

definition num_or :: "jsnum option \<Rightarrow> jsnum \<Rightarrow> jsnum" where
  "num_or v d = (case v of None \<Rightarrow> d | Some x \<Rightarrow> if truthy_num x then x else d)"

definition str_or :: "string option \<Rightarrow> string \<Rightarrow> string" where
  "str_or v d = (case v of None \<Rightarrow> d | Some s \<Rightarrow> if s \<noteq> [] then s else d)"

definition list_or :: "'a list option \<Rightarrow> 'a list \<Rightarrow> 'a list" where
  "list_or v d = (case v of None \<Rightarrow> d | Some xs \<Rightarrow> xs)"

text \<open>\<^verbatim>\<open>ToNumber\<close> of a numeric property: \<^verbatim>\<open>undefined\<close> becomes NaN.\<close>

definition to_number :: "jsnum option \<Rightarrow> jsnum" where
  "to_number v = (case v of None \<Rightarrow> NaN | Some x \<Rightarrow> x)"

text \<open>The values an entry of the \<^verbatim>\<open>offers\<close> object of \<^verbatim>\<open>submitBid\<close> may hold.\<close>

datatype jsval = JNumber jsnum | JString string | JUndefined

fun truthy :: "jsval \<Rightarrow> bool" where
  "truthy (JNumber x) = truthy_num x"
| "truthy (JString s) = (s \<noteq> [])"
| "truthy JUndefined = False"

text \<open>
  \<^verbatim>\<open>parseFloat(v)\<close>: a number is printed and read back as itself; a string goes
  to the built-in parser, the argument \<open>parseFloat\<close>; \<^verbatim>\<open>"undefined"\<close> parses to NaN.
\<close>

fun parseFloat_val :: "(string \<Rightarrow> jsnum) \<Rightarrow> jsval \<Rightarrow> jsnum" where
  "parseFloat_val parseFloat (JNumber x) = x"
| "parseFloat_val parseFloat (JString s) = parseFloat s"
| "parseFloat_val parseFloat JUndefined = NaN"

subsection \<open>The document\<close>

record user =
  user_id :: string
  user_username :: string
  user_password :: string
  user_name :: string
  user_role :: string
  user_parentId :: string
  user_trustLevel :: int

record part =
  part_id :: string
  part_name :: string
  part_photos :: "string list"
  part_fill :: jsnum
  part_vin :: string
  part_year :: string
  part_make :: string
  part_model :: string
  part_trim :: string
  part_partNumber :: string
  part_notes :: string

record box =
  box_id :: string
  box_sellerId :: string
  box_packageName :: string
  box_material :: string
  box_saleUnit :: string
  box_count :: jsnum
  box_gross :: jsnum
  box_tare :: jsnum
  box_net :: jsnum
  box_photos :: "string list"
  box_status :: string
  box_parts :: "part list"

record auction =
  auction_id :: string
  auction_sellerId :: string
  auction_title :: string
  auction_shipping :: "string list"
  auction_forkliftOnSite :: bool
  auction_paymentTerms :: "string list"
  auction_boxIds :: "string list"
  auction_status :: string
  auction_bids :: "string list"

record lineOffer =
  lo_partId :: string
  lo_amount :: jsnum

record bid =
  bid_id :: string
  bid_auctionId :: string
  bid_buyerId :: string
  bid_lineOffers :: "lineOffer list"
  bid_total :: jsnum
  bid_status :: string
  bid_sellerApproved :: bool
  bid_adminApproved :: bool

record ledgerEntry =
  tx_id :: string
  tx_sellerId :: string
  tx_buyerId :: string
  tx_auctionId :: string
  tx_total :: jsnum
  tx_date :: string

record db =
  users :: "user list"
  boxes :: "box list"
  auctions :: "auction list"
  bids :: "bid list"
  ledger :: "ledgerEntry list"

text \<open>The document \<^verbatim>\<open>loadDb\<close> returns when localStorage holds none.\<close>

definition empty_db :: db where
  "empty_db = \<lparr>users = [], boxes = [], auctions = [], bids = [], ledger = []\<rparr>"

text \<open>The arguments \<^verbatim>\<open>data\<close> of \<^verbatim>\<open>createBox\<close>, \<^verbatim>\<open>part\<close> of \<^verbatim>\<open>addPart\<close> and
  \<^verbatim>\<open>data\<close> of \<^verbatim>\<open>createAuction\<close>: plain objects whose properties may be absent.
  A property that is present holds a value of the type the callers in the file pass
  (a number for count, gross, tare, net and fill, a string or an array otherwise).
  \<^verbatim>\<open>data.boxIds\<close> is iterated unguarded, so it is always an array.\<close>

record boxData =
  bd_packageName :: "string option"
  bd_material :: "string option"
  bd_saleUnit :: "string option"
  bd_count :: "jsnum option"
  bd_gross :: "jsnum option"
  bd_tare :: "jsnum option"
  bd_net :: "jsnum option"
  bd_photos :: "string list option"

record partData =
  pd_name :: "string option"
  pd_photos :: "string list option"
  pd_fill :: "jsnum option"
  pd_vin :: "string option"
  pd_year :: "string option"
  pd_make :: "string option"
  pd_model :: "string option"
  pd_trim :: "string option"
  pd_partNumber :: "string option"
  pd_notes :: "string option"

record auctionData =
  ad_title :: "string option"
  ad_shipping :: "string list option"
  ad_forkliftOnSite :: "bool option"
  ad_paymentTerms :: "string list option"
  ad_boxIds :: "string list"

text \<open>
  The results \<^verbatim>\<open>{ error: '...' }\<close>, one constructor for each message of the code:
  \<^item> \<open>DuplicateUsername\<close>: 'Username already exists'
  \<^item> \<open>BoxNotFound\<close>: 'Box not found'
  \<^item> \<open>CannotModifyBox\<close>: 'Cannot modify box in auction or sold'
  \<^item> \<open>MaterialMismatch m\<close>: 'Box is locked to material "m"'
  \<^item> \<open>EmptyBox\<close>: 'Add at least one part before finalising'
  \<^item> \<open>InvalidBoxState\<close>: 'Box already finalised or in auction'
  \<^item> \<open>AuctionBoxNotFound i\<close>: 'Box i not found'
  \<^item> \<open>BoxNotReady i\<close>: 'Box i not ready for auction'
  \<^item> \<open>AuctionNotFound\<close>: 'Auction not found'
  \<^item> \<open>EmptyBid\<close>: 'Enter at least one offer amount'
  \<^item> \<open>BidNotFound\<close>: 'Bid not found'
  \<^item> \<open>PreconditionFailed\<close>: 'Bid must be seller accepted first'
\<close>

datatype error =
    DuplicateUsername
  | BoxNotFound
  | CannotModifyBox
  | MaterialMismatch string
  | EmptyBox
  | InvalidBoxState
  | AuctionBoxNotFound string
  | BoxNotReady string
  | AuctionNotFound
  | EmptyBid
  | BidNotFound
  | PreconditionFailed

subsection \<open>Looking up and mutating an element of an array\<close>

text \<open>
  \<^verbatim>\<open>db.boxes.find(b => b.id === boxId)\<close> returns the first element with that id,
  and the code then assigns to its properties: the array is changed at the first
  match and nowhere else.
\<close>

definition find_user :: "db \<Rightarrow> string \<Rightarrow> user option" where
  "find_user d i = find (\<lambda>u. user_id u = i) (users d)"

definition find_box :: "db \<Rightarrow> string \<Rightarrow> box option" where
  "find_box d i = find (\<lambda>b. box_id b = i) (boxes d)"

definition find_auction :: "db \<Rightarrow> string \<Rightarrow> auction option" where
  "find_auction d i = find (\<lambda>a. auction_id a = i) (auctions d)"

definition find_bid :: "db \<Rightarrow> string \<Rightarrow> bid option" where
  "find_bid d i = find (\<lambda>b. bid_id b = i) (bids d)"

fun update_first :: "('a \<Rightarrow> bool) \<Rightarrow> ('a \<Rightarrow> 'a) \<Rightarrow> 'a list \<Rightarrow> 'a list" where
  "update_first P f [] = []"
| "update_first P f (x # xs) = (if P x then f x # xs else x # update_first P f xs)"

subsection \<open>The operations\<close>

definition initDemo :: "db \<Rightarrow> string \<Rightarrow> string \<Rightarrow> string \<Rightarrow> db" where
  "initDemo d adminId managerId operatorId =
     (if users d \<noteq> [] then d
      else d\<lparr>users := users d @
        [\<lparr>user_id = adminId, user_username = ''admin'', user_password = ''admin'',
          user_name = ''Administrator'', user_role = ''admin'', user_parentId = '''',
          user_trustLevel = 5\<rparr>,
         \<lparr>user_id = managerId, user_username = ''manager'', user_password = ''manager'',
          user_name = ''Manager'', user_role = ''seller'', user_parentId = adminId,
          user_trustLevel = 3\<rparr>,
         \<lparr>user_id = operatorId, user_username = ''operator'', user_password = ''operator'',
          user_name = ''Operator'', user_role = ''buyer'', user_parentId = managerId,
          user_trustLevel = 0\<rparr>]\<rparr>)"

text \<open>\<^verbatim>\<open>createUser\<close> returns what \<^verbatim>\<open>find\<close> gives for the new id after the push.\<close>

definition createUser ::
  "db \<Rightarrow> string \<Rightarrow> string \<Rightarrow> string \<Rightarrow> string \<Rightarrow> string option \<Rightarrow> string
     \<Rightarrow> db \<times> (error + user option)" where
  "createUser d username password name role parentId newId =
     (if find (\<lambda>u. user_username u = username) (users d) \<noteq> None
      then (d, Inl DuplicateUsername)
      else
        let d' = d\<lparr>users := users d @
              [\<lparr>user_id = newId, user_username = username, user_password = password,
                user_name = name, user_role = role, user_parentId = str_or parentId '''',
                user_trustLevel = 0\<rparr>]\<rparr>
        in (d', Inr (find_user d' newId)))"

definition createBox ::
  "(rat \<Rightarrow> rat \<Rightarrow> jsnum) \<Rightarrow> db \<Rightarrow> string \<Rightarrow> boxData \<Rightarrow> string \<Rightarrow> db \<times> (error + box)" where
  "createBox float_add d sellerId data newId =
     (let net = num_or (bd_net data)
                  (js_sub float_add (to_number (bd_gross data)) (to_number (bd_tare data)));
          box = \<lparr>box_id = newId,
                 box_sellerId = sellerId,
                 box_packageName = str_or (bd_packageName data) '''',
                 box_material = str_or (bd_material data) '''',
                 box_saleUnit = str_or (bd_saleUnit data) ''LB'',
                 box_count = num_or (bd_count data) (Num 0),
                 box_gross = num_or (bd_gross data) (Num 0),
                 box_tare = num_or (bd_tare data) (Num 0),
                 box_net = num_or (Some net) (Num 0),
                 box_photos = list_or (bd_photos data) [],
                 box_status = ''WIP'',
                 box_parts = []\<rparr>
      in (d\<lparr>boxes := boxes d @ [box]\<rparr>, Inr box))"

definition addPart ::
  "(string \<Rightarrow> string) \<Rightarrow> db \<Rightarrow> string \<Rightarrow> partData \<Rightarrow> string \<Rightarrow> db \<times> (error + part)" where
  "addPart toLowerCase d boxId part newId =
     (case find_box d boxId of
        None \<Rightarrow> (d, Inl BoxNotFound)
      | Some box \<Rightarrow>
          let name = str_or (pd_name part) '''' in
          if box_status box \<noteq> ''WIP'' \<and> box_status box \<noteq> ''FINISHED''
          then (d, Inl CannotModifyBox)
          else if box_material box \<noteq> [] \<and> name \<noteq> []
                  \<and> toLowerCase name \<noteq> toLowerCase (box_material box)
          then (d, Inl (MaterialMismatch (box_material box)))
          else
            let material = (if box_material box = [] \<and> name \<noteq> [] then name
                            else box_material box);
                newPart = \<lparr>part_id = newId,
                             part_name = name,
                             part_photos = list_or (pd_photos part) [],
                             part_fill = num_or (pd_fill part) (Num 0),
                             part_vin = str_or (pd_vin part) '''',
                             part_year = str_or (pd_year part) '''',
                             part_make = str_or (pd_make part) '''',
                             part_model = str_or (pd_model part) '''',
                             part_trim = str_or (pd_trim part) '''',
                             part_partNumber = str_or (pd_partNumber part) '''',
                             part_notes = str_or (pd_notes part) ''''\<rparr>
            in (d\<lparr>boxes := update_first (\<lambda>b. box_id b = boxId)
                     (\<lambda>b. b\<lparr>box_material := material, box_parts := box_parts b @ [newPart]\<rparr>)
                     (boxes d)\<rparr>,
                Inr newPart))"

definition finalizeBox :: "db \<Rightarrow> string \<Rightarrow> db \<times> (error + box)" where
  "finalizeBox d boxId =
     (case find_box d boxId of
        None \<Rightarrow> (d, Inl BoxNotFound)
      | Some box \<Rightarrow>
          if box_parts box = [] then (d, Inl EmptyBox)
          else if box_status box \<noteq> ''WIP'' then (d, Inl InvalidBoxState)
          else (d\<lparr>boxes := update_first (\<lambda>b. box_id b = boxId)
                      (\<lambda>b. b\<lparr>box_status := ''FINISHED''\<rparr>) (boxes d)\<rparr>,
                Inr (box\<lparr>box_status := ''FINISHED''\<rparr>)))"

definition setBoxStatus :: "db \<Rightarrow> string \<Rightarrow> string \<Rightarrow> db" where
  "setBoxStatus d boxId status =
     d\<lparr>boxes := update_first (\<lambda>b. box_id b = boxId) (\<lambda>b. b\<lparr>box_status := status\<rparr>) (boxes d)\<rparr>"

text \<open>The validation loop of \<^verbatim>\<open>createAuction\<close>: the first box that fails gives the error.\<close>

fun validate_boxes :: "db \<Rightarrow> string list \<Rightarrow> error option" where
  "validate_boxes d [] = None"
| "validate_boxes d (bxId # rest) =
     (case find_box d bxId of
        None \<Rightarrow> Some (AuctionBoxNotFound bxId)
      | Some bx \<Rightarrow>
          if box_status bx \<noteq> ''FINISHED'' then Some (BoxNotReady bxId)
          else validate_boxes d rest)"

text \<open>\<^verbatim>\<open>ids.forEach(bx => setBoxStatus(db, bx, status))\<close>\<close>

definition mark_boxes :: "db \<Rightarrow> string list \<Rightarrow> string \<Rightarrow> db" where
  "mark_boxes d ids status = foldl (\<lambda>d' bx. setBoxStatus d' bx status) d ids"

text \<open>\<^verbatim>\<open>id.slice(-5)\<close>: the last five characters, the whole string when it is shorter.\<close>

definition slice_last5 :: "string \<Rightarrow> string" where
  "slice_last5 s = drop (length s - 5) s"

definition createAuction ::
  "db \<Rightarrow> string \<Rightarrow> auctionData \<Rightarrow> string \<Rightarrow> db \<times> (error + auction)" where
  "createAuction d sellerId data newId =
     (case validate_boxes d (ad_boxIds data) of
        Some e \<Rightarrow> (d, Inl e)
      | None \<Rightarrow>
          let auction = \<lparr>auction_id = newId,
                         auction_sellerId = sellerId,
                         auction_title = str_or (ad_title data) (''Auction '' @ slice_last5 newId),
                         auction_shipping = list_or (ad_shipping data) [],
                         auction_forkliftOnSite = (ad_forkliftOnSite data = Some True),
                         auction_paymentTerms = list_or (ad_paymentTerms data) [],
                         auction_boxIds = ad_boxIds data,
                         auction_status = ''IN_AUCTION'',
                         auction_bids = []\<rparr>;
              d' = d\<lparr>auctions := auctions d @ [auction]\<rparr>
          in (mark_boxes d' (auction_boxIds auction) ''IN_AUCTION'', Inr auction))"

text \<open>
  \<^verbatim>\<open>offers\<close> is an object from part ids to amounts; it is given as the list of
  its entries in the order of \<^verbatim>\<open>Object.keys\<close>.
\<close>

definition make_lineOffers :: "(string \<Rightarrow> jsnum) \<Rightarrow> (string \<times> jsval) list \<Rightarrow> lineOffer list" where
  "make_lineOffers parseFloat offers =
     map (\<lambda>(pid, v). \<lparr>lo_partId = pid,
                       lo_amount = parseFloat_val parseFloat
                                     (if truthy v then v else JNumber (Num 0))\<rparr>) offers"

definition offers_total :: "(rat \<Rightarrow> rat \<Rightarrow> jsnum) \<Rightarrow> lineOffer list \<Rightarrow> jsnum" where
  "offers_total float_add lineOffers =
     foldl (\<lambda>sum ofr. js_add float_add sum
                         (if isNaN (lo_amount ofr) then Num 0 else lo_amount ofr))
       (Num 0) lineOffers"

definition submitBid ::
  "(string \<Rightarrow> jsnum) \<Rightarrow> (rat \<Rightarrow> rat \<Rightarrow> jsnum) \<Rightarrow> db \<Rightarrow> string \<Rightarrow> string
     \<Rightarrow> (string \<times> jsval) list \<Rightarrow> string \<Rightarrow> db \<times> (error + bid)" where
  "submitBid parseFloat float_add d buyerId auctionId offers newId =
     (case find_auction d auctionId of
        None \<Rightarrow> (d, Inl AuctionNotFound)
      | Some auction \<Rightarrow>
          let lineOffers = make_lineOffers parseFloat offers;
              total = offers_total float_add lineOffers
          in if js_le total (Num 0) then (d, Inl EmptyBid)
             else
               let bid = \<lparr>bid_id = newId,
                          bid_auctionId = auctionId,
                          bid_buyerId = buyerId,
                          bid_lineOffers = lineOffers,
                          bid_total = total,
                          bid_status = ''SUBMITTED'',
                          bid_sellerApproved = False,
                          bid_adminApproved = False\<rparr>
               in (d\<lparr>bids := bids d @ [bid],
                      auctions := update_first (\<lambda>a. auction_id a = auctionId)
                        (\<lambda>a. a\<lparr>auction_bids := auction_bids a @ [bid_id bid]\<rparr>) (auctions d)\<rparr>,
                   Inr bid))"

definition setBidSellerStatus :: "db \<Rightarrow> string \<Rightarrow> bool \<Rightarrow> db \<times> (error + bid)" where
  "setBidSellerStatus d bidId approve =
     (case find_bid d bidId of
        None \<Rightarrow> (d, Inl BidNotFound)
      | Some bid \<Rightarrow>
          let upd = (\<lambda>b. if approve
                          then b\<lparr>bid_status := ''SELLER_ACCEPTED'', bid_sellerApproved := True\<rparr>
                          else b\<lparr>bid_status := ''SELLER_REJECTED''\<rparr>)
          in (d\<lparr>bids := update_first (\<lambda>b. bid_id b = bidId) upd (bids d)\<rparr>, Inr (upd bid)))"

definition setBidAdminStatus ::
  "db \<Rightarrow> string \<Rightarrow> bool \<Rightarrow> string \<Rightarrow> string \<Rightarrow> db \<times> (error + bid)" where
  "setBidAdminStatus d bidId approve txId now =
     (case find_bid d bidId of
        None \<Rightarrow> (d, Inl BidNotFound)
      | Some bid \<Rightarrow>
          if bid_status bid \<noteq> ''SELLER_ACCEPTED'' then (d, Inl PreconditionFailed)
          else
            (case find_auction d (bid_auctionId bid) of
               None \<Rightarrow> (d, Inl AuctionNotFound)
             | Some auction \<Rightarrow>
                 if approve then
                   let upd = (\<lambda>b. b\<lparr>bid_status := ''ADMIN_APPROVED'', bid_adminApproved := True\<rparr>);
                       d1 = d\<lparr>bids := update_first (\<lambda>b. bid_id b = bidId) upd (bids d),
                              auctions := update_first (\<lambda>a. auction_id a = bid_auctionId bid)
                                (\<lambda>a. a\<lparr>auction_status := ''SOLD''\<rparr>) (auctions d)\<rparr>;
                       d2 = mark_boxes d1 (auction_boxIds auction) ''SOLD''
                   in (d2\<lparr>ledger := ledger d2 @
                            [\<lparr>tx_id = txId,
                              tx_sellerId = auction_sellerId auction,
                              tx_buyerId = bid_buyerId bid,
                              tx_auctionId = auction_id auction,
                              tx_total = bid_total bid,
                              tx_date = now\<rparr>]\<rparr>,
                       Inr (upd bid))
                 else
                   let upd = (\<lambda>b. b\<lparr>bid_status := ''ADMIN_REJECTED''\<rparr>)
                   in (d\<lparr>bids := update_first (\<lambda>b. bid_id b = bidId) upd (bids d)\<rparr>,
                       Inr (upd bid))))"

subsection \<open>Sequences of operations\<close>

text \<open>
  A call of one of the operations, with its arguments and with the values drawn from
  outside during the call (the new id, the time).
\<close>

datatype op =
    InitDemo string string string
  | CreateUser string string string string "string option" string
  | CreateBox string boxData string
  | AddPart string partData string
  | FinalizeBox string
  | CreateAuction string auctionData string
  | SubmitBid string string "(string \<times> jsval) list" string
  | SetBidSellerStatus string bool
  | SetBidAdminStatus string bool string string

text \<open>The document after a call; a call that returns an error has not touched it.\<close>

fun step :: "(string \<Rightarrow> string) \<Rightarrow> (string \<Rightarrow> jsnum) \<Rightarrow> (rat \<Rightarrow> rat \<Rightarrow> jsnum) \<Rightarrow> db \<Rightarrow> op \<Rightarrow> db" where
  "step toLowerCase parseFloat float_add d (InitDemo adminId managerId operatorId) =
     initDemo d adminId managerId operatorId"
| "step toLowerCase parseFloat float_add d (CreateUser username password name role parentId newId) =
     fst (createUser d username password name role parentId newId)"
| "step toLowerCase parseFloat float_add d (CreateBox sellerId data newId) =
     fst (createBox float_add d sellerId data newId)"
| "step toLowerCase parseFloat float_add d (AddPart boxId part newId) =
     fst (addPart toLowerCase d boxId part newId)"
| "step toLowerCase parseFloat float_add d (FinalizeBox boxId) =
     fst (finalizeBox d boxId)"
| "step toLowerCase parseFloat float_add d (CreateAuction sellerId data newId) =
     fst (createAuction d sellerId data newId)"
| "step toLowerCase parseFloat float_add d (SubmitBid buyerId auctionId offers newId) =
     fst (submitBid parseFloat float_add d buyerId auctionId offers newId)"
| "step toLowerCase parseFloat float_add d (SetBidSellerStatus bidId approve) =
     fst (setBidSellerStatus d bidId approve)"
| "step toLowerCase parseFloat float_add d (SetBidAdminStatus bidId approve txId now) =
     fst (setBidAdminStatus d bidId approve txId now)"

definition run :: "(string \<Rightarrow> string) \<Rightarrow> (string \<Rightarrow> jsnum) \<Rightarrow> (rat \<Rightarrow> rat \<Rightarrow> jsnum) \<Rightarrow> db \<Rightarrow> op list \<Rightarrow> db" where
  "run toLowerCase parseFloat float_add d ops = foldl (step toLowerCase parseFloat float_add) d ops"

text \<open>The documents the operations can build, starting from the empty one.\<close>

inductive reachable :: "(string \<Rightarrow> string) \<Rightarrow> (string \<Rightarrow> jsnum) \<Rightarrow> (rat \<Rightarrow> rat \<Rightarrow> jsnum) \<Rightarrow> db \<Rightarrow> bool"
  for toLowerCase :: "string \<Rightarrow> string" and parseFloat :: "string \<Rightarrow> jsnum"
    and float_add :: "rat \<Rightarrow> rat \<Rightarrow> jsnum" where
  reachable_empty: "reachable toLowerCase parseFloat float_add empty_db"
| reachable_step: "reachable toLowerCase parseFloat float_add d
     \<Longrightarrow> reachable toLowerCase parseFloat float_add (step toLowerCase parseFloat float_add d c)"

subsection \<open>Counting the calls that succeed\<close>

text \<open>Whether a call returns a result rather than an error.\<close>

fun succeeds :: "(string \<Rightarrow> string) \<Rightarrow> (string \<Rightarrow> jsnum) \<Rightarrow> (rat \<Rightarrow> rat \<Rightarrow> jsnum) \<Rightarrow> db \<Rightarrow> op \<Rightarrow> bool" where
  "succeeds toLowerCase parseFloat float_add d (InitDemo adminId managerId operatorId) = True"
| "succeeds toLowerCase parseFloat float_add d (CreateUser username password name role parentId newId) =
     (\<not> isl (snd (createUser d username password name role parentId newId)))"
| "succeeds toLowerCase parseFloat float_add d (CreateBox sellerId data newId) =
     (\<not> isl (snd (createBox float_add d sellerId data newId)))"
| "succeeds toLowerCase parseFloat float_add d (AddPart boxId part newId) =
     (\<not> isl (snd (addPart toLowerCase d boxId part newId)))"
| "succeeds toLowerCase parseFloat float_add d (FinalizeBox boxId) =
     (\<not> isl (snd (finalizeBox d boxId)))"
| "succeeds toLowerCase parseFloat float_add d (CreateAuction sellerId data newId) =
     (\<not> isl (snd (createAuction d sellerId data newId)))"
| "succeeds toLowerCase parseFloat float_add d (SubmitBid buyerId auctionId offers newId) =
     (\<not> isl (snd (submitBid parseFloat float_add d buyerId auctionId offers newId)))"
| "succeeds toLowerCase parseFloat float_add d (SetBidSellerStatus bidId approve) =
     (\<not> isl (snd (setBidSellerStatus d bidId approve)))"
| "succeeds toLowerCase parseFloat float_add d (SetBidAdminStatus bidId approve txId now) =
     (\<not> isl (snd (setBidAdminStatus d bidId approve txId now)))"

text \<open>The number of calls selected by \<open>sel\<close> that succeed while the sequence runs.\<close>

fun count_ok ::
  "(string \<Rightarrow> string) \<Rightarrow> (string \<Rightarrow> jsnum) \<Rightarrow> (rat \<Rightarrow> rat \<Rightarrow> jsnum) \<Rightarrow> (op \<Rightarrow> bool) \<Rightarrow> db \<Rightarrow> op list \<Rightarrow> nat" where
  "count_ok toLowerCase parseFloat float_add sel d [] = 0"
| "count_ok toLowerCase parseFloat float_add sel d (c # cs) =
     (if sel c \<and> succeeds toLowerCase parseFloat float_add d c then 1 else 0)
       + count_ok toLowerCase parseFloat float_add sel (step toLowerCase parseFloat float_add d c) cs"

text \<open>A call \<^verbatim>\<open>setBidAdminStatus(_, true)\<close>: for any bid, for the bid \<open>b\<close>.\<close>

fun is_approval :: "op \<Rightarrow> bool" where
  "is_approval (SetBidAdminStatus bidId approve txId now) = approve"
| "is_approval c = False"

fun is_approval_of :: "string \<Rightarrow> op \<Rightarrow> bool" where
  "is_approval_of b (SetBidAdminStatus bidId approve txId now) = (bidId = b \<and> approve)"
| "is_approval_of b c = False"

text \<open>A call \<^verbatim>\<open>finalizeBox(b)\<close>.\<close>

fun is_finalize_of :: "string \<Rightarrow> op \<Rightarrow> bool" where
  "is_finalize_of b (FinalizeBox boxId) = (boxId = b)"
| "is_finalize_of b c = False"

text \<open>
  A ledger entry does not record the bid it settles. Each successful
  \<^verbatim>\<open>setBidAdminStatus(b, true)\<close> pushes one entry for the bid \<open>b\<close>, and nothing else
  writes the ledger: the entries written for \<open>b\<close> during a sequence of calls are
  counted by the successful approvals of \<open>b\<close>.
\<close>

definition approvals ::
  "(string \<Rightarrow> string) \<Rightarrow> (string \<Rightarrow> jsnum) \<Rightarrow> (rat \<Rightarrow> rat \<Rightarrow> jsnum) \<Rightarrow> string \<Rightarrow> db \<Rightarrow> op list \<Rightarrow> nat" where
  "approvals toLowerCase parseFloat float_add b = count_ok toLowerCase parseFloat float_add (is_approval_of b)"

definition finalizations ::
  "(string \<Rightarrow> string) \<Rightarrow> (string \<Rightarrow> jsnum) \<Rightarrow> (rat \<Rightarrow> rat \<Rightarrow> jsnum) \<Rightarrow> string \<Rightarrow> db \<Rightarrow> op list \<Rightarrow> nat" where
  "finalizations toLowerCase parseFloat float_add b = count_ok toLowerCase parseFloat float_add (is_finalize_of b)"

subsection \<open>Notions the properties are stated with\<close>

text \<open>The sum of the amounts of the line items, as \<^verbatim>\<open>+\<close> adds them from 0.\<close>

definition amounts_sum :: "(rat \<Rightarrow> rat \<Rightarrow> jsnum) \<Rightarrow> lineOffer list \<Rightarrow> jsnum" where
  "amounts_sum float_add lineOffers = foldl (js_add float_add) (Num 0) (map lo_amount lineOffers)"

text \<open>A line item as the total counts it: a NaN amount counts as 0.\<close>

definition nan_as_zero :: "lineOffer \<Rightarrow> lineOffer" where
  "nan_as_zero ofr = (if lo_amount ofr = NaN then ofr\<lparr>lo_amount := Num 0\<rparr> else ofr)"

text \<open>
  What the operations keep true of the boxes: a box that has left \<open>WIP\<close> has a part,
  and every id in an auction's list resolves to a box that has a part.
\<close>

definition boxes_ok :: "db \<Rightarrow> bool" where
  "boxes_ok d =
     ((\<forall>b \<in> set (boxes d). box_status b \<noteq> ''WIP'' \<longrightarrow> box_parts b \<noteq> [])
      \<and> (\<forall>a \<in> set (auctions d). \<forall>i \<in> set (auction_boxIds a).
            \<exists>b. find_box d i = Some b \<and> box_parts b \<noteq> []))"

subsection \<open>Concrete inputs for the examples\<close>

text \<open>
  Instances of the built-ins for the examples: lower-casing of the ASCII letters; a
  parser that reads a leading run of decimal digits (NaN when there is none), which is
  what \<^verbatim>\<open>parseFloat\<close> returns on the strings the examples use; and the exact sum,
  which is what \<^verbatim>\<open>+\<close> returns when the exact sum is a binary64 number, as it is for
  the small integers the examples add.
\<close>

definition ascii_toLowerCase :: "string \<Rightarrow> string" where
  "ascii_toLowerCase s =
     map (\<lambda>c. if 65 \<le> (of_char c :: nat) \<and> (of_char c :: nat) \<le> 90
               then char_of (of_char c + 32 :: nat) else c) s"

definition is_digit :: "char \<Rightarrow> bool" where
  "is_digit c = (48 \<le> (of_char c :: nat) \<and> (of_char c :: nat) \<le> 57)"

definition digits_parseFloat :: "string \<Rightarrow> jsnum" where
  "digits_parseFloat s =
     (case takeWhile is_digit s of
        [] \<Rightarrow> NaN
      | ds \<Rightarrow> Num (of_nat (foldl (\<lambda>n c. 10 * n + (of_char c - 48)) 0 ds)))"

definition exact_add :: "rat \<Rightarrow> rat \<Rightarrow> jsnum" where
  "exact_add a b = Num (a + b)"

text \<open>
  The end-to-end scenario: a seller creates a box (gross 100, tare 10), adds a part
  named "Copper #1", finalises the box and lists it; a buyer offers 50 on the part;
  the seller accepts and the admin approves.
\<close>

definition demo_boxData :: boxData where
  "demo_boxData = \<lparr>bd_packageName = Some ''Lot 1'', bd_material = Some [],
     bd_saleUnit = Some ''LB'', bd_count = Some (Num 0), bd_gross = Some (Num 100),
     bd_tare = Some (Num 10), bd_net = None, bd_photos = Some []\<rparr>"

definition demo_partData :: partData where
  "demo_partData = \<lparr>pd_name = Some ''Copper #1'', pd_photos = Some [], pd_fill = Some (Num 80),
     pd_vin = Some [], pd_year = Some [], pd_make = Some [], pd_model = Some [],
     pd_trim = Some [], pd_partNumber = Some [], pd_notes = Some []\<rparr>"

definition demo_auctionData :: auctionData where
  "demo_auctionData = \<lparr>ad_title = Some [], ad_shipping = Some [],
     ad_forkliftOnSite = Some False, ad_paymentTerms = Some [], ad_boxIds = [''BOX-1'']\<rparr>"

definition demo_listing :: "op list" where
  "demo_listing =
     [CreateBox ''USR-2'' demo_boxData ''BOX-1'',
      AddPart ''BOX-1'' demo_partData ''PRT-1'',
      FinalizeBox ''BOX-1'',
      CreateAuction ''USR-2'' demo_auctionData ''AUC-1'']"

definition demo_bidding :: "op list" where
  "demo_bidding =
     demo_listing @
     [SubmitBid ''USR-3'' ''AUC-1'' [(''PRT-1'', JNumber (Num 50))] ''BID-1'',
      SetBidSellerStatus ''BID-1'' True]"

text \<open>
  The documents of the scenario: once the box is created, once it holds its part,
  once it is finalised, once the auction is listed, once the bid is submitted, once
  the seller has accepted it, and once the admin has approved it.
\<close>

definition demo_created :: db where
  "demo_created = run ascii_toLowerCase digits_parseFloat exact_add empty_db (take 1 demo_listing)"

definition demo_wip :: db where
  "demo_wip = run ascii_toLowerCase digits_parseFloat exact_add empty_db (take 2 demo_listing)"

definition demo_finished :: db where
  "demo_finished = run ascii_toLowerCase digits_parseFloat exact_add empty_db (take 3 demo_listing)"

definition demo_listed :: db where
  "demo_listed = run ascii_toLowerCase digits_parseFloat exact_add empty_db demo_listing"

definition demo_submitted :: db where
  "demo_submitted = run ascii_toLowerCase digits_parseFloat exact_add empty_db (butlast demo_bidding)"

definition demo_accepted :: db where
  "demo_accepted = run ascii_toLowerCase digits_parseFloat exact_add empty_db demo_bidding"

definition demo_sold :: db where
  "demo_sold = fst (setBidAdminStatus demo_accepted ''BID-1'' True ''TX-1'' ''2024-05-01T10:00:00.000Z'')"

text \<open>The auction and the bid of the scenario, as they are in \<open>demo_accepted\<close>.\<close>

definition demo_auction :: auction where
  "demo_auction = \<lparr>auction_id = ''AUC-1'', auction_sellerId = ''USR-2'',
     auction_title = ''Auction AUC-1'', auction_shipping = [], auction_forkliftOnSite = False,
     auction_paymentTerms = [], auction_boxIds = [''BOX-1''], auction_status = ''IN_AUCTION'',
     auction_bids = [''BID-1'']\<rparr>"

definition demo_bid :: bid where
  "demo_bid = \<lparr>bid_id = ''BID-1'', bid_auctionId = ''AUC-1'', bid_buyerId = ''USR-3'',
     bid_lineOffers = [\<lparr>lo_partId = ''PRT-1'', lo_amount = Num 50\<rparr>], bid_total = Num 50,
     bid_status = ''SELLER_ACCEPTED'', bid_sellerApproved = True, bid_adminApproved = False\<rparr>"

text \<open>
  Inputs that depart from the scenario: a part without a name, a box whose net is
  given as 0, and the offers \<^verbatim>\<open>{P1: 10, P2: "abc"}\<close>.
\<close>

definition unnamed_partData :: partData where
  "unnamed_partData = demo_partData\<lparr>pd_name := Some []\<rparr>"

definition zero_net_boxData :: boxData where
  "zero_net_boxData = demo_boxData\<lparr>bd_net := Some (Num 0)\<rparr>"

definition mixed_offers :: "(string \<times> jsval) list" where
  "mixed_offers = [(''P1'', JNumber (Num 10)), (''P2'', JString ''abc'')]"

text \<open>The offers \<^verbatim>\<open>{P1: "12", P2: "abc", P3: 7, P4: ""}\<close>.\<close>

definition string_offers :: "(string \<times> jsval) list" where
  "string_offers = [(''P1'', JString ''12''), (''P2'', JString ''abc''),
     (''P3'', JNumber (Num 7)), (''P4'', JString [])]"

text \<open>
  The scenario continued in two ways after the seller's acceptance: the admin
  approves, the seller accepts once more and the admin approves again; and, after the
  approval, calls on the bid among which there is no new seller acceptance.
\<close>

definition demo_resettle :: "op list" where
  "demo_resettle =
     demo_bidding @
     [SetBidAdminStatus ''BID-1'' True ''TX-1'' ''2024-05-01T10:00:00.000Z'',
      SetBidSellerStatus ''BID-1'' True,
      SetBidAdminStatus ''BID-1'' True ''TX-2'' ''2024-05-01T10:05:00.000Z'']"

definition demo_retry :: "op list" where
  "demo_retry =
     [SetBidAdminStatus ''BID-1'' True ''TX-2'' ''2024-05-01T10:05:00.000Z'',
      SetBidSellerStatus ''BID-1'' False,
      SetBidAdminStatus ''BID-1'' True ''TX-3'' ''2024-05-01T10:06:00.000Z'']"


section \<open>Arrays: the first match and its update\<close>

lemma find_update_first_same:
  assumes "\<And>x. key (f x) = key x"
  shows "find (\<lambda>x. key x = k) (update_first (\<lambda>x. key x = k) f xs)
           = map_option f (find (\<lambda>x. key x = k) xs)"
  by (induction xs) (simp_all add: assms)

lemma find_update_first_other:
  assumes "\<And>x. key (f x) = key x" and "k' \<noteq> k"
  shows "find (\<lambda>x. key x = k') (update_first (\<lambda>x. key x = k) f xs)
           = find (\<lambda>x. key x = k') xs"
  using assms(2) by (induction xs) (auto simp: assms(1))

lemma map_key_update_first:
  assumes "\<And>x. key (f x) = key x"
  shows "map key (update_first P f xs) = map key xs"
  by (induction xs) (simp_all add: assms)

lemma set_update_first:
  "y \<in> set (update_first P f xs) \<Longrightarrow> y \<in> set xs \<or> (\<exists>x \<in> set xs. P x \<and> y = f x)"
  by (induction xs) (auto split: if_splits)

lemma find_distinct_key:
  "distinct (map key xs) \<Longrightarrow> x \<in> set xs \<Longrightarrow> find (\<lambda>y. key y = key x) xs = Some x"
  by (induction xs) (auto simp: image_iff)

lemma find_append:
  "find P (xs @ ys) = (case find P xs of None \<Rightarrow> find P ys | Some x \<Rightarrow> Some x)"
  by (induction xs) auto

lemma find_key_eq: "find (\<lambda>x. key x = k) xs = Some y \<Longrightarrow> key y = k \<and> y \<in> set xs"
  by (auto simp: find_Some_iff)

section \<open>Marking boxes\<close>

lemma find_box_setBoxStatus:
  "find_box (setBoxStatus d k st) i =
     (if i = k then map_option (\<lambda>b. b\<lparr>box_status := st\<rparr>) (find_box d i) else find_box d i)"
  by (simp add: find_box_def setBoxStatus_def find_update_first_same find_update_first_other)

lemma setBoxStatus_fields [simp]:
  "users (setBoxStatus d k st) = users d"
  "auctions (setBoxStatus d k st) = auctions d"
  "bids (setBoxStatus d k st) = bids d"
  "ledger (setBoxStatus d k st) = ledger d"
  "map box_id (boxes (setBoxStatus d k st)) = map box_id (boxes d)"
  by (simp_all add: setBoxStatus_def map_key_update_first)

lemma mark_boxes_fields [simp]:
  "users (mark_boxes d ids st) = users d"
  "auctions (mark_boxes d ids st) = auctions d"
  "bids (mark_boxes d ids st) = bids d"
  "ledger (mark_boxes d ids st) = ledger d"
  "map box_id (boxes (mark_boxes d ids st)) = map box_id (boxes d)"
  unfolding mark_boxes_def by (induction ids arbitrary: d; simp)+

lemma find_box_mark_boxes:
  "find_box (mark_boxes d ids st) i =
     (if i \<in> set ids then map_option (\<lambda>b. b\<lparr>box_status := st\<rparr>) (find_box d i) else find_box d i)"
  unfolding mark_boxes_def
proof (induction ids arbitrary: d)
  case Nil
  show ?case by simp
next
  case (Cons k ids)
  show ?case
    by (cases "find_box d i") (auto simp: Cons.IH find_box_setBoxStatus)
qed

lemma find_box_cong: "boxes d = boxes d' \<Longrightarrow> find_box d i = find_box d' i"
  by (simp add: find_box_def)

lemma mark_boxes_all_marked:
  assumes "distinct (map box_id (boxes d))" and "b \<in> set (boxes (mark_boxes d ids st))"
    and "box_id b \<in> set ids"
  shows "box_status b = st"
proof -
  have "distinct (map box_id (boxes (mark_boxes d ids st)))"
    using assms(1) by simp
  then have "find_box (mark_boxes d ids st) (box_id b) = Some b"
    unfolding find_box_def using assms(2) by (rule find_distinct_key)
  then show ?thesis
    using assms(3) by (auto simp: find_box_mark_boxes)
qed

section \<open>Admin approval\<close>

lemma admin_approve_eq:
  assumes "find_bid d bidId = Some bid"
    and "bid_status bid = ''SELLER_ACCEPTED''"
    and "find_auction d (bid_auctionId bid) = Some auction"
  shows "setBidAdminStatus d bidId True txId now =
     ((mark_boxes
         (d\<lparr>bids := update_first (\<lambda>b. bid_id b = bidId)
                 (\<lambda>b. b\<lparr>bid_status := ''ADMIN_APPROVED'', bid_adminApproved := True\<rparr>) (bids d),
            auctions := update_first (\<lambda>a. auction_id a = bid_auctionId bid)
                 (\<lambda>a. a\<lparr>auction_status := ''SOLD''\<rparr>) (auctions d)\<rparr>)
         (auction_boxIds auction) ''SOLD'')
       \<lparr>ledger := ledger d @
          [\<lparr>tx_id = txId, tx_sellerId = auction_sellerId auction, tx_buyerId = bid_buyerId bid,
            tx_auctionId = auction_id auction, tx_total = bid_total bid, tx_date = now\<rparr>]\<rparr>,
      Inr (bid\<lparr>bid_status := ''ADMIN_APPROVED'', bid_adminApproved := True\<rparr>))"
  using assms by (simp add: setBidAdminStatus_def Let_def)

lemma setBidAdminStatus_InrD:
  "setBidAdminStatus d bidId approve txId now = (d', Inr r) \<Longrightarrow>
     \<exists>bid auction. find_bid d bidId = Some bid \<and> bid_status bid = ''SELLER_ACCEPTED''
        \<and> find_auction d (bid_auctionId bid) = Some auction"
  by (auto simp: setBidAdminStatus_def split: option.splits if_splits)

lemma find_bid_approved:
  assumes "find_bid d bidId = Some bid"
    and "bid_status bid = ''SELLER_ACCEPTED''"
    and "find_auction d (bid_auctionId bid) = Some auction"
  shows "find_bid (fst (setBidAdminStatus d bidId True txId now)) bidId
           = Some (bid\<lparr>bid_status := ''ADMIN_APPROVED'', bid_adminApproved := True\<rparr>)"
  using assms(1)
  by (simp add: admin_approve_eq [OF assms] find_bid_def find_update_first_same)

text \<open>
  C1. When \<open>bidId\<close> resolves to a bid whose status is \<open>SELLER_ACCEPTED\<close> and whose
  auction id resolves to an auction, \<^verbatim>\<open>setBidAdminStatus(bidId, true)\<close> succeeds. In
  the resulting document the bid has status \<open>ADMIN_APPROVED\<close> and its admin-approved
  flag set, the auction has status \<open>SOLD\<close> (its box list is the same), every id of the
  auction's box list that resolves to a box resolves to one with status \<open>SOLD\<close>, and,
  where the box ids of the document are distinct, every box whose id is in the list
  has status \<open>SOLD\<close>; the ledger is the old ledger followed by exactly one entry, which
  records the auction's seller id, the bid's buyer id, the auction id and the bid's
  total.
\<close>

theorem setBidAdminStatus_approve:
  assumes "find_bid d bidId = Some bid"
    and "bid_status bid = ''SELLER_ACCEPTED''"
    and "find_auction d (bid_auctionId bid) = Some auction"
  shows "\<exists>d' bid'. setBidAdminStatus d bidId True txId now = (d', Inr bid')
      \<and> find_bid d' bidId = Some bid'
      \<and> bid_status bid' = ''ADMIN_APPROVED'' \<and> bid_adminApproved bid'
      \<and> (\<exists>a'. find_auction d' (bid_auctionId bid) = Some a'
             \<and> auction_status a' = ''SOLD'' \<and> auction_boxIds a' = auction_boxIds auction)
      \<and> (\<forall>i \<in> set (auction_boxIds auction). \<forall>b. find_box d' i = Some b \<longrightarrow> box_status b = ''SOLD'')
      \<and> (distinct (map box_id (boxes d)) \<longrightarrow>
            (\<forall>b \<in> set (boxes d'). box_id b \<in> set (auction_boxIds auction) \<longrightarrow> box_status b = ''SOLD''))
      \<and> (\<exists>e. ledger d' = ledger d @ [e]
             \<and> tx_sellerId e = auction_sellerId auction
             \<and> tx_buyerId e = bid_buyerId bid
             \<and> tx_auctionId e = bid_auctionId bid
             \<and> tx_total e = bid_total bid)"
proof -
  define upd where "upd = (\<lambda>b::bid. b\<lparr>bid_status := ''ADMIN_APPROVED'', bid_adminApproved := True\<rparr>)"
  define d1 where "d1 = d\<lparr>bids := update_first (\<lambda>b. bid_id b = bidId) upd (bids d),
      auctions := update_first (\<lambda>a. auction_id a = bid_auctionId bid)
         (\<lambda>a. a\<lparr>auction_status := ''SOLD''\<rparr>) (auctions d)\<rparr>"
  define e where "e = \<lparr>tx_id = txId, tx_sellerId = auction_sellerId auction,
      tx_buyerId = bid_buyerId bid, tx_auctionId = auction_id auction,
      tx_total = bid_total bid, tx_date = now\<rparr>"
  define d' where "d' = (mark_boxes d1 (auction_boxIds auction) ''SOLD'')\<lparr>ledger := ledger d @ [e]\<rparr>"
  have res: "setBidAdminStatus d bidId True txId now = (d', Inr (upd bid))"
    by (simp add: admin_approve_eq [OF assms] d'_def d1_def e_def upd_def)
  have aid: "auction_id auction = bid_auctionId bid"
    using assms(3) by (auto simp: find_auction_def dest: find_key_eq)
  have fb: "find_bid d' bidId = Some (upd bid)"
    using find_bid_approved [OF assms, of txId now] by (simp add: res upd_def)
  have fa: "find_auction d' (bid_auctionId bid) = Some (auction\<lparr>auction_status := ''SOLD''\<rparr>)"
    using assms(3)
    by (simp add: find_auction_def d'_def d1_def find_update_first_same)
  have boxes': "boxes d' = boxes (mark_boxes d1 (auction_boxIds auction) ''SOLD'')"
    by (simp add: d'_def)
  have sold: "\<forall>i \<in> set (auction_boxIds auction). \<forall>b. find_box d' i = Some b \<longrightarrow> box_status b = ''SOLD''"
    by (auto simp: find_box_cong [OF boxes'] find_box_mark_boxes)
  have sold_all: "\<forall>b \<in> set (boxes d'). box_id b \<in> set (auction_boxIds auction) \<longrightarrow> box_status b = ''SOLD''"
    if "distinct (map box_id (boxes d))"
  proof -
    have "distinct (map box_id (boxes d1))" using that by (simp add: d1_def)
    then show ?thesis
      unfolding boxes' by (blast intro: mark_boxes_all_marked)
  qed
  have led: "ledger d' = ledger d @ [e]"
    by (simp add: d'_def)
  show ?thesis
    apply (rule exI [of _ d'], rule exI [of _ "upd bid"])
    apply (intro conjI)
           apply (rule res)
          apply (rule fb)
         apply (simp add: upd_def)
        apply (simp add: upd_def)
       apply (rule exI [of _ "auction\<lparr>auction_status := ''SOLD''\<rparr>"], simp add: fa)
      apply (rule sold)
     apply (rule impI, erule sold_all)
    apply (rule exI [of _ e], simp add: led, simp add: e_def aid)
    done
qed

theorem setBidAdminStatus_approve_witness:
  "find_bid demo_accepted ''BID-1'' = Some demo_bid
   \<and> bid_status demo_bid = ''SELLER_ACCEPTED''
   \<and> find_auction demo_accepted (bid_auctionId demo_bid) = Some demo_auction
   \<and> distinct (map box_id (boxes demo_accepted))
   \<and> (\<exists>d' bid'. setBidAdminStatus demo_accepted ''BID-1'' True ''TX-1'' ''2024-05-01T10:00:00.000Z''
          = (d', Inr bid')
        \<and> bid_status bid' = ''ADMIN_APPROVED''
        \<and> list_all (\<lambda>b. box_status b = ''SOLD'') (boxes d')
        \<and> (\<exists>e. ledger d' = [e] \<and> tx_sellerId e = ''USR-2'' \<and> tx_buyerId e = ''USR-3''
              \<and> tx_auctionId e = ''AUC-1'' \<and> tx_total e = Num 50))"
proof -
  have h1: "find_bid demo_accepted ''BID-1'' = Some demo_bid" by code_simp
  have h2: "bid_status demo_bid = ''SELLER_ACCEPTED''" by code_simp
  have h3: "find_auction demo_accepted (bid_auctionId demo_bid) = Some demo_auction" by code_simp
  have h4: "distinct (map box_id (boxes demo_accepted))" by code_simp
  have ids: "map box_id (boxes demo_accepted) = auction_boxIds demo_auction" by code_simp
  have led: "ledger demo_accepted = []" by code_simp
  have vals: "auction_sellerId demo_auction = ''USR-2''" "bid_buyerId demo_bid = ''USR-3''"
    "bid_auctionId demo_bid = ''AUC-1''" "bid_total demo_bid = Num 50"
    by (simp_all add: demo_auction_def demo_bid_def)
  from setBidAdminStatus_approve [OF h1 h2 h3, of "''TX-1''" "''2024-05-01T10:00:00.000Z''"]
  obtain d' bid' where r: "setBidAdminStatus demo_accepted ''BID-1'' True ''TX-1''
        ''2024-05-01T10:00:00.000Z'' = (d', Inr bid')"
    and st: "bid_status bid' = ''ADMIN_APPROVED''"
    and bx: "distinct (map box_id (boxes demo_accepted)) \<longrightarrow>
            (\<forall>b \<in> set (boxes d'). box_id b \<in> set (auction_boxIds demo_auction) \<longrightarrow> box_status b = ''SOLD'')"
    and le: "\<exists>e. ledger d' = ledger demo_accepted @ [e]
             \<and> tx_sellerId e = auction_sellerId demo_auction
             \<and> tx_buyerId e = bid_buyerId demo_bid
             \<and> tx_auctionId e = bid_auctionId demo_bid
             \<and> tx_total e = bid_total demo_bid"
    by blast
  have "map box_id (boxes d') = map box_id (boxes demo_accepted)"
    using r by (auto simp: admin_approve_eq [OF h1 h2 h3])
  then have "\<forall>b \<in> set (boxes d'). box_id b \<in> set (auction_boxIds demo_auction)"
    unfolding ids [symmetric] by (metis image_eqI list.set_map)
  with bx h4 have "list_all (\<lambda>b. box_status b = ''SOLD'') (boxes d')"
    by (simp add: list_all_iff)
  with h1 h2 h3 h4 r st le show ?thesis
    by (simp add: led vals)
qed

text \<open>
  C2. When \<open>bidId\<close> resolves to a bid whose status is not \<open>SELLER_ACCEPTED\<close>,
  \<^verbatim>\<open>setBidAdminStatus(bidId, approve)\<close> returns the error \<open>PreconditionFailed\<close> and the
  document is the one it was given. In particular, after a successful
  \<^verbatim>\<open>setBidAdminStatus(bidId, true)\<close> a second such call, whatever id and time it
  draws, returns \<open>PreconditionFailed\<close> and the document, so also its ledger, is
  unchanged.
\<close>

theorem setBidAdminStatus_precondition:
  "(find_bid d bidId = Some bid \<and> bid_status bid \<noteq> ''SELLER_ACCEPTED''
      \<longrightarrow> setBidAdminStatus d bidId approve txId now = (d, Inl PreconditionFailed))
   \<and> (setBidAdminStatus d bidId True txId now = (d', Inr bid')
      \<longrightarrow> setBidAdminStatus d' bidId True txId' now' = (d', Inl PreconditionFailed))"
proof (intro conjI impI)
  assume "find_bid d bidId = Some bid \<and> bid_status bid \<noteq> ''SELLER_ACCEPTED''"
  then show "setBidAdminStatus d bidId approve txId now = (d, Inl PreconditionFailed)"
    by (simp add: setBidAdminStatus_def)
next
  assume ok: "setBidAdminStatus d bidId True txId now = (d', Inr bid')"
  from setBidAdminStatus_InrD [OF ok] obtain b a where
    h: "find_bid d bidId = Some b" "bid_status b = ''SELLER_ACCEPTED''"
       "find_auction d (bid_auctionId b) = Some a"
    by blast
  have "find_bid d' bidId = Some (b\<lparr>bid_status := ''ADMIN_APPROVED'', bid_adminApproved := True\<rparr>)"
    using find_bid_approved [OF h, of txId now] by (simp add: ok)
  then show "setBidAdminStatus d' bidId True txId' now' = (d', Inl PreconditionFailed)"
    by (simp add: setBidAdminStatus_def)
qed

theorem setBidAdminStatus_precondition_witness:
  "find_bid demo_submitted ''BID-1'' = Some (demo_bid\<lparr>bid_status := ''SUBMITTED'', bid_sellerApproved := False\<rparr>)
   \<and> bid_status (demo_bid\<lparr>bid_status := ''SUBMITTED'', bid_sellerApproved := False\<rparr>) \<noteq> ''SELLER_ACCEPTED''
   \<and> setBidAdminStatus demo_submitted ''BID-1'' True ''TX-1'' ''2024-05-01T10:00:00.000Z''
        = (demo_submitted, Inl PreconditionFailed)
   \<and> setBidAdminStatus demo_accepted ''BID-1'' True ''TX-1'' ''2024-05-01T10:00:00.000Z''
        = (demo_sold, Inr (demo_bid\<lparr>bid_status := ''ADMIN_APPROVED'', bid_adminApproved := True\<rparr>))
   \<and> setBidAdminStatus demo_sold ''BID-1'' True ''TX-2'' ''2024-05-01T10:00:01.000Z''
        = (demo_sold, Inl PreconditionFailed)"
proof -
  have h1: "find_bid demo_submitted ''BID-1''
      = Some (demo_bid\<lparr>bid_status := ''SUBMITTED'', bid_sellerApproved := False\<rparr>)"
    by code_simp
  have h2: "bid_status (demo_bid\<lparr>bid_status := ''SUBMITTED'', bid_sellerApproved := False\<rparr>)
      \<noteq> ''SELLER_ACCEPTED''"
    by simp
  have h3: "setBidAdminStatus demo_accepted ''BID-1'' True ''TX-1'' ''2024-05-01T10:00:00.000Z''
      = (demo_sold, Inr (demo_bid\<lparr>bid_status := ''ADMIN_APPROVED'', bid_adminApproved := True\<rparr>))"
    by code_simp
  show ?thesis
    using h1 h2 h3
      setBidAdminStatus_precondition [of demo_submitted "''BID-1''"
        "demo_bid\<lparr>bid_status := ''SUBMITTED'', bid_sellerApproved := False\<rparr>" True
        "''TX-1''" "''2024-05-01T10:00:00.000Z''"]
      setBidAdminStatus_precondition [of demo_accepted "''BID-1''" _ _
        "''TX-1''" "''2024-05-01T10:00:00.000Z''" demo_sold
        "demo_bid\<lparr>bid_status := ''ADMIN_APPROVED'', bid_adminApproved := True\<rparr>"
        "''TX-2''" "''2024-05-01T10:00:01.000Z''"]
    by simp
qed

section \<open>Seller decision\<close>

text \<open>
  C9, as the code has it. When \<open>bidId\<close> resolves to a bid, whatever its state,
  \<^verbatim>\<open>setBidSellerStatus(bidId, false)\<close> succeeds, sets the bid's status to
  \<open>SELLER_REJECTED\<close> and changes nothing else of the bid: the seller-approved flag
  keeps the value it had, so it is false afterwards only if it was false before.
\<close>

theorem setBidSellerStatus_reject:
  assumes "find_bid d bidId = Some bid"
  shows "\<exists>d' bid'. setBidSellerStatus d bidId False = (d', Inr bid')
      \<and> find_bid d' bidId = Some bid'
      \<and> bid' = bid\<lparr>bid_status := ''SELLER_REJECTED''\<rparr>
      \<and> bid_status bid' = ''SELLER_REJECTED''
      \<and> bid_sellerApproved bid' = bid_sellerApproved bid"
  using assms
  by (simp add: setBidSellerStatus_def Let_def find_bid_def find_update_first_same)

theorem setBidSellerStatus_reject_witness:
  "find_bid demo_submitted ''BID-1'' = Some (demo_bid\<lparr>bid_status := ''SUBMITTED'', bid_sellerApproved := False\<rparr>)
   \<and> (\<exists>d' bid'. setBidSellerStatus demo_submitted ''BID-1'' False = (d', Inr bid')
         \<and> bid_status bid' = ''SELLER_REJECTED'' \<and> bid_sellerApproved bid' = False)"
proof -
  have h: "find_bid demo_submitted ''BID-1''
      = Some (demo_bid\<lparr>bid_status := ''SUBMITTED'', bid_sellerApproved := False\<rparr>)"
    by code_simp
  from setBidSellerStatus_reject [OF h] h show ?thesis
    by auto
qed

text \<open>
  C9 as stated fails on a bid the seller has accepted before: in the scenario,
  \<^verbatim>\<open>setBidSellerStatus('BID-1', true)\<close> gives the document \<open>demo_accepted\<close>, and
  \<^verbatim>\<open>setBidSellerStatus('BID-1', false)\<close> on it leaves a bid with status
  \<open>SELLER_REJECTED\<close> whose seller-approved flag is true.
\<close>

theorem setBidSellerStatus_reject_counterexample:
  "fst (setBidSellerStatus demo_submitted ''BID-1'' True) = demo_accepted
   \<and> find_bid demo_accepted ''BID-1'' = Some demo_bid
   \<and> find_bid (fst (setBidSellerStatus demo_accepted ''BID-1'' False)) ''BID-1''
        = Some (demo_bid\<lparr>bid_status := ''SELLER_REJECTED''\<rparr>)
   \<and> bid_sellerApproved (demo_bid\<lparr>bid_status := ''SELLER_REJECTED''\<rparr>) = True"
  by code_simp

section \<open>Creating a box\<close>

text \<open>
  C10, as the code has it. \<^verbatim>\<open>createBox\<close> always succeeds and pushes a box with the
  drawn id, status \<open>WIP\<close> and no part. Its net is the supplied net when one is
  supplied that is neither 0 nor NaN. When the net is absent, 0 or NaN, the net is
  the difference gross - tare as the language computes it, and 0 where that
  difference is NaN (as when gross or tare is absent).
\<close>

theorem createBox_net:
  "\<exists>box. createBox float_add d sellerId data newId = (d\<lparr>boxes := boxes d @ [box]\<rparr>, Inr box)
     \<and> box_id box = newId \<and> box_sellerId box = sellerId
     \<and> box_status box = ''WIP'' \<and> box_parts box = []
     \<and> (\<forall>n. bd_net data = Some n \<and> n \<noteq> Num 0 \<and> n \<noteq> NaN \<longrightarrow> box_net box = n)
     \<and> (bd_net data = None \<or> bd_net data = Some (Num 0) \<or> bd_net data = Some NaN \<longrightarrow>
          box_net box =
            (if js_sub float_add (to_number (bd_gross data)) (to_number (bd_tare data)) = NaN
             then Num 0
             else js_sub float_add (to_number (bd_gross data)) (to_number (bd_tare data))))"
  by (auto simp: createBox_def Let_def num_or_def truthy_num_def)

theorem createBox_net_witness:
  "bd_net demo_boxData = None
   \<and> js_sub exact_add (to_number (bd_gross demo_boxData)) (to_number (bd_tare demo_boxData)) = Num 90
   \<and> bd_net (demo_boxData\<lparr>bd_net := Some (Num 42)\<rparr>) = Some (Num 42) \<and> Num 42 \<noteq> Num 0 \<and> Num 42 \<noteq> NaN
   \<and> (\<exists>box. snd (createBox exact_add empty_db ''USR-2'' demo_boxData ''BOX-1'') = Inr box \<and> box_net box = Num 90)
   \<and> (\<exists>box. snd (createBox exact_add empty_db ''USR-2'' (demo_boxData\<lparr>bd_net := Some (Num 42)\<rparr>) ''BOX-1'') = Inr box
         \<and> box_net box = Num 42)"
proof -
  have h: "bd_net demo_boxData = None"
    "bd_net (demo_boxData\<lparr>bd_net := Some (Num 42)\<rparr>) = Some (Num 42)"
    by (simp_all add: demo_boxData_def)
  have df: "js_sub exact_add (to_number (bd_gross demo_boxData)) (to_number (bd_tare demo_boxData))
      = Num 90"
    by (simp add: demo_boxData_def js_sub_def to_number_def exact_add_def)
  from createBox_net [of exact_add empty_db "''USR-2''" demo_boxData "''BOX-1''"] h df
  obtain b1 where "snd (createBox exact_add empty_db ''USR-2'' demo_boxData ''BOX-1'') = Inr b1"
    "box_net b1 = Num 90"
    by auto
  moreover
  from createBox_net [of exact_add empty_db "''USR-2''" "demo_boxData\<lparr>bd_net := Some (Num 42)\<rparr>" "''BOX-1''"] h
  obtain b2 where "snd (createBox exact_add empty_db ''USR-2'' (demo_boxData\<lparr>bd_net := Some (Num 42)\<rparr>) ''BOX-1'') = Inr b2"
    "box_net b2 = Num 42"
    by auto
  ultimately show ?thesis using h df by auto
qed

text \<open>
  C10 as stated fails for a supplied net of 0: with net 0, gross 100 and tare 10 the
  box is created with net 90, because \<^verbatim>\<open>data.net || (data.gross - data.tare)\<close> takes a
  0 for an absent value.
\<close>

theorem createBox_net_counterexample:
  "bd_net zero_net_boxData = Some (Num 0)
   \<and> map box_net (boxes (fst (createBox exact_add empty_db ''USR-2'' zero_net_boxData ''BOX-1''))) = [Num 90]"
  by code_simp

section \<open>Adding a part\<close>

text \<open>
  C6, as the code has it. When \<open>boxId\<close> resolves to a box whose material is set and
  whose status is \<open>WIP\<close> or \<open>FINISHED\<close>, and the submitted part has a non-empty name
  whose lower-casing differs from the lower-casing of the box's material,
  \<^verbatim>\<open>addPart\<close> returns the error \<open>MaterialMismatch\<close> and the document is unchanged, so
  the box keeps its part list and its material.
\<close>

theorem addPart_material_mismatch:
  assumes "find_box d boxId = Some box"
    and "box_material box \<noteq> []"
    and "box_status box = ''WIP'' \<or> box_status box = ''FINISHED''"
    and "pd_name part = Some name" and "name \<noteq> []"
    and "toLowerCase name \<noteq> toLowerCase (box_material box)"
  shows "addPart toLowerCase d boxId part newId = (d, Inl (MaterialMismatch (box_material box)))
     \<and> find_box (fst (addPart toLowerCase d boxId part newId)) boxId = Some box"
  using assms by (auto simp: addPart_def Let_def str_or_def)

theorem addPart_material_mismatch_witness:
  "find_box demo_wip ''BOX-1'' = Some (the (find_box demo_wip ''BOX-1''))
   \<and> box_material (the (find_box demo_wip ''BOX-1'')) = ''Copper #1''
   \<and> box_status (the (find_box demo_wip ''BOX-1'')) = ''WIP''
   \<and> pd_name (demo_partData\<lparr>pd_name := Some ''Brass''\<rparr>) = Some ''Brass''
   \<and> ascii_toLowerCase ''Brass'' \<noteq> ascii_toLowerCase ''Copper #1''
   \<and> addPart ascii_toLowerCase demo_wip ''BOX-1'' (demo_partData\<lparr>pd_name := Some ''Brass''\<rparr>) ''PRT-2''
        = (demo_wip, Inl (MaterialMismatch ''Copper #1''))"
proof -
  have h1: "find_box demo_wip ''BOX-1'' = Some (the (find_box demo_wip ''BOX-1''))" by code_simp
  have h2: "box_material (the (find_box demo_wip ''BOX-1'')) = ''Copper #1''" by code_simp
  have h3: "box_status (the (find_box demo_wip ''BOX-1'')) = ''WIP''" by code_simp
  have h4: "pd_name (demo_partData\<lparr>pd_name := Some ''Brass''\<rparr>) = Some ''Brass''" by simp
  have h5: "ascii_toLowerCase ''Brass'' \<noteq> ascii_toLowerCase ''Copper #1''" by code_simp
  from addPart_material_mismatch [of demo_wip "''BOX-1''" "the (find_box demo_wip ''BOX-1'')"
      "demo_partData\<lparr>pd_name := Some ''Brass''\<rparr>" "''Brass''" ascii_toLowerCase "''PRT-2''"]
    h1 h2 h3 h4 h5
  show ?thesis by simp
qed

text \<open>
  C6 as stated fails for a part without a name: the box of the scenario has the
  material "Copper #1" and status \<open>WIP\<close>; the empty name differs from it, yet
  \<^verbatim>\<open>addPart\<close> succeeds and the box has a second part.
\<close>

theorem addPart_mismatch_counterexample:
  "map box_material (boxes demo_wip) = [''Copper #1'']
   \<and> map box_status (boxes demo_wip) = [''WIP'']
   \<and> map part_id (concat (map box_parts (boxes demo_wip))) = [''PRT-1'']
   \<and> pd_name unnamed_partData = Some []
   \<and> ascii_toLowerCase [] \<noteq> ascii_toLowerCase ''Copper #1''
   \<and> isl (snd (addPart ascii_toLowerCase demo_wip ''BOX-1'' unnamed_partData ''PRT-2'')) = False
   \<and> map part_id (concat (map box_parts (boxes (fst
        (addPart ascii_toLowerCase demo_wip ''BOX-1'' unnamed_partData ''PRT-2''))))) = [''PRT-1'', ''PRT-2'']"
  by code_simp

section \<open>Submitting a bid\<close>

lemma make_lineOffers_partIds:
  "map lo_partId (make_lineOffers pf offers) = map fst offers"
  by (induction offers) (auto simp: make_lineOffers_def)

lemma make_lineOffers_amounts:
  "map lo_amount (make_lineOffers pf offers) =
     map (\<lambda>v. case v of
              JNumber x \<Rightarrow> if x = Num 0 \<or> x = NaN then Num 0 else x
            | JString s \<Rightarrow> if s = [] then Num 0 else pf s
            | JUndefined \<Rightarrow> Num 0) (map snd offers)"
  by (induction offers)
     (auto simp: make_lineOffers_def truthy_num_def split: jsval.splits)

lemma foldl_nan_as_zero:
  "foldl (\<lambda>sum ofr. js_add fa sum (if isNaN (lo_amount ofr) then Num 0 else lo_amount ofr)) a los
     = foldl (js_add fa) a (map lo_amount (map nan_as_zero los))"
  by (induction los arbitrary: a) (simp_all add: nan_as_zero_def isNaN_def)

lemma offers_total_as_sum:
  "offers_total fa los = amounts_sum fa (map nan_as_zero los)"
  by (simp only: offers_total_def amounts_sum_def foldl_nan_as_zero)

lemma amounts_nan_as_zero:
  "map lo_amount (map nan_as_zero los) = map (\<lambda>x. if x = NaN then Num 0 else x) (map lo_amount los)"
  by (induction los) (simp_all add: nan_as_zero_def)

lemma offers_total_amounts:
  "offers_total fa los =
     foldl (js_add fa) (Num 0) (map (\<lambda>x. if x = NaN then Num 0 else x) (map lo_amount los))"
  by (simp only: offers_total_def foldl_nan_as_zero amounts_nan_as_zero)

lemma map_nan_as_zero_id:
  "NaN \<notin> lo_amount ` set los \<Longrightarrow> map nan_as_zero los = los"
  by (induction los) (auto simp: nan_as_zero_def)

lemma submitBid_InrD:
  "submitBid pf fa d buyerId auctionId offers newId = (d', Inr bid) \<Longrightarrow>
     bid_lineOffers bid = make_lineOffers pf offers
     \<and> bid_total bid = offers_total fa (make_lineOffers pf offers)"
  by (auto simp: submitBid_def Let_def split: option.splits if_splits)

text \<open>
  C7. Let \<open>auctionId\<close> resolve to an auction. The amount of an entry of \<open>offers\<close> is
  its value when that is a number other than 0 and NaN, what \<^verbatim>\<open>parseFloat\<close> reads
  from it when it is a non-empty string (NaN for a string that is no number), and 0
  otherwise; the total is the sum, from 0 and in the order of the entries, of these
  amounts with every NaN counted as 0. \<^verbatim>\<open>submitBid\<close> builds one line offer per
  entry, in their order, with the entry's part id and this amount. If the total is
  \<open>\<le> 0\<close> the call returns the error \<open>EmptyBid\<close> and the document unchanged; if not, it
  succeeds: the new bid has these line offers and this total, status \<open>SUBMITTED\<close> and
  both approval flags false, it is pushed on the bids, and its id is pushed on the bid
  list of the auction.
\<close>

theorem submitBid_spec:
  assumes "find_auction d auctionId = Some auction"
  shows "let amounts = map (\<lambda>v. case v of
                                 JNumber x \<Rightarrow> if x = Num 0 \<or> x = NaN then Num 0 else x
                               | JString s \<Rightarrow> if s = [] then Num 0 else parseFloat s
                               | JUndefined \<Rightarrow> Num 0) (map snd offers);
             total = foldl (js_add float_add) (Num 0)
                       (map (\<lambda>x. if x = NaN then Num 0 else x) amounts)
         in length (make_lineOffers parseFloat offers) = length offers
          \<and> map lo_partId (make_lineOffers parseFloat offers) = map fst offers
          \<and> map lo_amount (make_lineOffers parseFloat offers) = amounts
          \<and> offers_total float_add (make_lineOffers parseFloat offers) = total
          \<and> (js_le total (Num 0) \<longrightarrow>
                submitBid parseFloat float_add d buyerId auctionId offers newId = (d, Inl EmptyBid))
          \<and> (\<not> js_le total (Num 0) \<longrightarrow>
                (\<exists>d' bid. submitBid parseFloat float_add d buyerId auctionId offers newId = (d', Inr bid)
                   \<and> bid_id bid = newId \<and> bid_auctionId bid = auctionId \<and> bid_buyerId bid = buyerId
                   \<and> length (bid_lineOffers bid) = length offers
                   \<and> map lo_partId (bid_lineOffers bid) = map fst offers
                   \<and> map lo_amount (bid_lineOffers bid) = amounts
                   \<and> bid_total bid = total
                   \<and> bid_status bid = ''SUBMITTED''
                   \<and> \<not> bid_sellerApproved bid \<and> \<not> bid_adminApproved bid
                   \<and> bids d' = bids d @ [bid]
                   \<and> find_auction d' auctionId
                        = Some (auction\<lparr>auction_bids := auction_bids auction @ [newId]\<rparr>)))"
proof -
  define amounts where "amounts = map (\<lambda>v. case v of
                                 JNumber x \<Rightarrow> if x = Num 0 \<or> x = NaN then Num 0 else x
                               | JString s \<Rightarrow> if s = [] then Num 0 else parseFloat s
                               | JUndefined \<Rightarrow> Num 0) (map snd offers)"
  define total where "total = foldl (js_add float_add) (Num 0)
                       (map (\<lambda>x. if x = NaN then Num 0 else x) amounts)"
  define los where "los = make_lineOffers parseFloat offers"
  have len: "length los = length offers"
    by (simp add: los_def make_lineOffers_def)
  have ids: "map lo_partId los = map fst offers"
    unfolding los_def by (rule make_lineOffers_partIds)
  have am: "map lo_amount los = amounts"
    unfolding los_def amounts_def by (rule make_lineOffers_amounts)
  have tot: "offers_total float_add los = total"
    unfolding total_def am [symmetric] by (rule offers_total_amounts)
  have fail: "submitBid parseFloat float_add d buyerId auctionId offers newId = (d, Inl EmptyBid)"
    if "js_le total (Num 0)"
    using that assms tot by (simp add: submitBid_def Let_def los_def)
  have ok: "\<exists>d' bid. submitBid parseFloat float_add d buyerId auctionId offers newId = (d', Inr bid)
                   \<and> bid_id bid = newId \<and> bid_auctionId bid = auctionId \<and> bid_buyerId bid = buyerId
                   \<and> length (bid_lineOffers bid) = length offers
                   \<and> map lo_partId (bid_lineOffers bid) = map fst offers
                   \<and> map lo_amount (bid_lineOffers bid) = amounts
                   \<and> bid_total bid = total
                   \<and> bid_status bid = ''SUBMITTED''
                   \<and> \<not> bid_sellerApproved bid \<and> \<not> bid_adminApproved bid
                   \<and> bids d' = bids d @ [bid]
                   \<and> find_auction d' auctionId
                        = Some (auction\<lparr>auction_bids := auction_bids auction @ [newId]\<rparr>)"
    if "\<not> js_le total (Num 0)"
    using that assms tot len ids am
    by (simp add: submitBid_def Let_def los_def find_auction_def find_update_first_same)
  from len ids am tot fail ok show ?thesis
    unfolding Let_def amounts_def [symmetric] total_def [symmetric] los_def by blast
qed

theorem submitBid_spec_witness:
  "find_auction demo_listed ''AUC-1'' = Some (demo_auction\<lparr>auction_bids := []\<rparr>)
   \<and> submitBid digits_parseFloat exact_add demo_listed ''USR-3'' ''AUC-1'' [] ''BID-1''
        = (demo_listed, Inl EmptyBid)
   \<and> (\<exists>d' bid. submitBid digits_parseFloat exact_add demo_listed ''USR-3'' ''AUC-1'' string_offers ''BID-1''
          = (d', Inr bid)
        \<and> map lo_partId (bid_lineOffers bid) = [''P1'', ''P2'', ''P3'', ''P4'']
        \<and> map lo_amount (bid_lineOffers bid) = [Num 12, NaN, Num 7, Num 0]
        \<and> bid_total bid = Num 19 \<and> bid_status bid = ''SUBMITTED''
        \<and> find_auction d' ''AUC-1'' = Some (demo_auction\<lparr>auction_bids := [''BID-1'']\<rparr>))"
proof -
  have h: "find_auction demo_listed ''AUC-1'' = Some (demo_auction\<lparr>auction_bids := []\<rparr>)"
    by code_simp
  have am: "map (\<lambda>v. case v of
                     JNumber x \<Rightarrow> if x = Num 0 \<or> x = NaN then Num 0 else x
                   | JString s \<Rightarrow> if s = [] then Num 0 else digits_parseFloat s
                   | JUndefined \<Rightarrow> Num 0) (map snd string_offers)
      = [Num 12, NaN, Num 7, Num 0]"
    by code_simp
  have tot: "foldl (js_add exact_add) (Num 0)
      (map (\<lambda>x. if x = NaN then Num 0 else x) [Num 12, NaN, Num 7, Num 0]) = Num 19"
    by (simp add: exact_add_def)
  have ids: "map fst string_offers = [''P1'', ''P2'', ''P3'', ''P4'']"
    by (simp add: string_offers_def)
  from submitBid_spec [OF h, of digits_parseFloat "[]" exact_add "''USR-3''" "''BID-1''"]
  have e: "submitBid digits_parseFloat exact_add demo_listed ''USR-3'' ''AUC-1'' [] ''BID-1''
      = (demo_listed, Inl EmptyBid)"
    by (simp add: Let_def)
  from submitBid_spec [OF h, of digits_parseFloat string_offers exact_add "''USR-3''" "''BID-1''"]
  have "\<exists>d' bid. submitBid digits_parseFloat exact_add demo_listed ''USR-3'' ''AUC-1'' string_offers ''BID-1''
          = (d', Inr bid)
        \<and> map lo_partId (bid_lineOffers bid) = [''P1'', ''P2'', ''P3'', ''P4'']
        \<and> map lo_amount (bid_lineOffers bid) = [Num 12, NaN, Num 7, Num 0]
        \<and> bid_total bid = Num 19 \<and> bid_status bid = ''SUBMITTED''
        \<and> find_auction d' ''AUC-1'' = Some (demo_auction\<lparr>auction_bids := [''BID-1'']\<rparr>)"
    unfolding Let_def am tot ids by (auto simp: demo_auction_def)
  with h e show ?thesis
    by blast
qed

text \<open>
  C8, as the code has it. The total stored in a bid that \<^verbatim>\<open>submitBid\<close> created is
  the sum of the amounts of its line items in which every NaN amount counts as 0; it
  is the sum of the stored amounts when none of them is NaN.
\<close>

theorem submitBid_total:
  assumes "submitBid pf float_add d buyerId auctionId offers newId = (d', Inr bid)"
  shows "bid_total bid = amounts_sum float_add (map nan_as_zero (bid_lineOffers bid))
     \<and> (NaN \<notin> lo_amount ` set (bid_lineOffers bid)
          \<longrightarrow> bid_total bid = amounts_sum float_add (bid_lineOffers bid))"
  using submitBid_InrD [OF assms]
  by (auto simp: offers_total_as_sum map_nan_as_zero_id)

theorem submitBid_total_witness:
  "submitBid digits_parseFloat exact_add demo_listed ''USR-3'' ''AUC-1'' [(''PRT-1'', JNumber (Num 50))] ''BID-1''
     = (demo_submitted, Inr (demo_bid\<lparr>bid_status := ''SUBMITTED'', bid_sellerApproved := False\<rparr>))
   \<and> NaN \<notin> lo_amount ` set (bid_lineOffers (demo_bid\<lparr>bid_status := ''SUBMITTED'', bid_sellerApproved := False\<rparr>))
   \<and> bid_total (demo_bid\<lparr>bid_status := ''SUBMITTED'', bid_sellerApproved := False\<rparr>)
       = amounts_sum exact_add
           (bid_lineOffers (demo_bid\<lparr>bid_status := ''SUBMITTED'', bid_sellerApproved := False\<rparr>))"
proof -
  have h: "submitBid digits_parseFloat exact_add demo_listed ''USR-3'' ''AUC-1'' [(''PRT-1'', JNumber (Num 50))] ''BID-1''
     = (demo_submitted, Inr (demo_bid\<lparr>bid_status := ''SUBMITTED'', bid_sellerApproved := False\<rparr>))"
    by code_simp
  have n: "NaN \<notin> lo_amount ` set (bid_lineOffers
      (demo_bid\<lparr>bid_status := ''SUBMITTED'', bid_sellerApproved := False\<rparr>))"
    by (simp add: demo_bid_def)
  from submitBid_total [OF h] n h show ?thesis
    by blast
qed

text \<open>
  C8 as stated fails for the offers \<^verbatim>\<open>{P1: 10, P2: "abc"}\<close>: the bid stores the
  amounts 10 and NaN and the total 10, while the sum of the stored amounts is NaN.
\<close>

theorem submitBid_total_counterexample:
  "map bid_total (bids (fst (submitBid digits_parseFloat exact_add demo_listed ''USR-3'' ''AUC-1'' mixed_offers ''BID-9'')))
      = [Num 10]
   \<and> map (amounts_sum exact_add) (map bid_lineOffers
        (bids (fst (submitBid digits_parseFloat exact_add demo_listed ''USR-3'' ''AUC-1'' mixed_offers ''BID-9''))))
      = [NaN]"
  by code_simp

section \<open>Creating an auction\<close>

lemma validate_boxes_None_iff:
  "validate_boxes d ids = None \<longleftrightarrow>
     (\<forall>i \<in> set ids. \<exists>b. find_box d i = Some b \<and> box_status b = ''FINISHED'')"
  by (induction ids) (auto split: option.splits)

text \<open>
  C4. If some id of \<^verbatim>\<open>data.boxIds\<close> resolves to no box, or to a box whose status is
  not \<open>FINISHED\<close>, \<^verbatim>\<open>createAuction\<close> returns an error and the document unchanged: no
  box has changed and no auction is added. If every id resolves to a \<open>FINISHED\<close> box,
  it succeeds: the new auction has status \<open>IN_AUCTION\<close> and the list
  \<^verbatim>\<open>data.boxIds\<close> as its box list, it is pushed on the auctions, every listed id
  resolves to a box with status \<open>IN_AUCTION\<close> (where the box ids of the document are
  distinct, every box whose id is listed has that status), and the other ids
  resolve as before.
\<close>

theorem createAuction_spec:
  "((\<exists>i \<in> set (ad_boxIds data). find_box d i = None
        \<or> (\<exists>b. find_box d i = Some b \<and> box_status b \<noteq> ''FINISHED''))
      \<longrightarrow> (\<exists>e. createAuction d sellerId data newId = (d, Inl e)))
   \<and> ((\<forall>i \<in> set (ad_boxIds data). \<exists>b. find_box d i = Some b \<and> box_status b = ''FINISHED'')
      \<longrightarrow> (\<exists>d' a. createAuction d sellerId data newId = (d', Inr a)
             \<and> auction_id a = newId \<and> auction_sellerId a = sellerId
             \<and> auction_status a = ''IN_AUCTION''
             \<and> auction_boxIds a = ad_boxIds data
             \<and> auctions d' = auctions d @ [a]
             \<and> (\<forall>i \<in> set (ad_boxIds data).
                   \<exists>b. find_box d' i = Some b \<and> box_status b = ''IN_AUCTION'')
             \<and> (distinct (map box_id (boxes d)) \<longrightarrow>
                   (\<forall>b \<in> set (boxes d'). box_id b \<in> set (ad_boxIds data)
                       \<longrightarrow> box_status b = ''IN_AUCTION''))
             \<and> (\<forall>i. i \<notin> set (ad_boxIds data) \<longrightarrow> find_box d' i = find_box d i)))"
proof (intro conjI impI)
  assume "\<exists>i \<in> set (ad_boxIds data). find_box d i = None
        \<or> (\<exists>b. find_box d i = Some b \<and> box_status b \<noteq> ''FINISHED'')"
  then obtain i where "i \<in> set (ad_boxIds data)"
    and "\<not> (\<exists>b. find_box d i = Some b \<and> box_status b = ''FINISHED'')"
    by auto
  then have "validate_boxes d (ad_boxIds data) \<noteq> None"
    unfolding validate_boxes_None_iff by blast
  then show "\<exists>e. createAuction d sellerId data newId = (d, Inl e)"
    by (auto simp: createAuction_def)
next
  assume ok: "\<forall>i \<in> set (ad_boxIds data). \<exists>b. find_box d i = Some b \<and> box_status b = ''FINISHED''"
  then have v: "validate_boxes d (ad_boxIds data) = None"
    by (simp add: validate_boxes_None_iff)
  have fb: "find_box (d\<lparr>auctions := xs\<rparr>) i = find_box d i" for xs i
    by (simp add: find_box_def)
  show "\<exists>d' a. createAuction d sellerId data newId = (d', Inr a)
             \<and> auction_id a = newId \<and> auction_sellerId a = sellerId
             \<and> auction_status a = ''IN_AUCTION''
             \<and> auction_boxIds a = ad_boxIds data
             \<and> auctions d' = auctions d @ [a]
             \<and> (\<forall>i \<in> set (ad_boxIds data).
                   \<exists>b. find_box d' i = Some b \<and> box_status b = ''IN_AUCTION'')
             \<and> (distinct (map box_id (boxes d)) \<longrightarrow>
                   (\<forall>b \<in> set (boxes d'). box_id b \<in> set (ad_boxIds data)
                       \<longrightarrow> box_status b = ''IN_AUCTION''))
             \<and> (\<forall>i. i \<notin> set (ad_boxIds data) \<longrightarrow> find_box d' i = find_box d i)"
    using ok
    by (auto simp: createAuction_def v Let_def find_box_mark_boxes fb
        intro: mark_boxes_all_marked [where d = "d\<lparr>auctions := xs\<rparr>" for xs, simplified])
qed

theorem createAuction_spec_witness:
  "ad_boxIds demo_auctionData = [''BOX-1'']
   \<and> find_box demo_wip ''BOX-1'' = Some (the (find_box demo_wip ''BOX-1''))
   \<and> box_status (the (find_box demo_wip ''BOX-1'')) \<noteq> ''FINISHED''
   \<and> (\<exists>e. createAuction demo_wip ''USR-2'' demo_auctionData ''AUC-1'' = (demo_wip, Inl e))
   \<and> find_box demo_finished ''BOX-1'' = Some (the (find_box demo_finished ''BOX-1''))
   \<and> box_status (the (find_box demo_finished ''BOX-1'')) = ''FINISHED''
   \<and> distinct (map box_id (boxes demo_finished))
   \<and> (\<exists>d' a b. createAuction demo_finished ''USR-2'' demo_auctionData ''AUC-1'' = (d', Inr a)
         \<and> auction_status a = ''IN_AUCTION'' \<and> auction_boxIds a = [''BOX-1'']
         \<and> find_box d' ''BOX-1'' = Some b \<and> box_status b = ''IN_AUCTION'')"
proof -
  have dist: "distinct (map box_id (boxes demo_finished))" by code_simp
  have ids: "ad_boxIds demo_auctionData = [''BOX-1'']"
    by (simp add: demo_auctionData_def)
  have w1: "find_box demo_wip ''BOX-1'' = Some (the (find_box demo_wip ''BOX-1''))" by code_simp
  have w2: "box_status (the (find_box demo_wip ''BOX-1'')) \<noteq> ''FINISHED''" by code_simp
  have f1: "find_box demo_finished ''BOX-1'' = Some (the (find_box demo_finished ''BOX-1''))"
    by code_simp
  have f2: "box_status (the (find_box demo_finished ''BOX-1'')) = ''FINISHED''" by code_simp
  from createAuction_spec [of demo_auctionData demo_wip "''USR-2''" "''AUC-1''"] w1 w2
  have a: "\<exists>e. createAuction demo_wip ''USR-2'' demo_auctionData ''AUC-1'' = (demo_wip, Inl e)"
    unfolding ids by auto
  from createAuction_spec [of demo_auctionData demo_finished "''USR-2''" "''AUC-1''"] f1 f2
  have b: "\<exists>d' a b. createAuction demo_finished ''USR-2'' demo_auctionData ''AUC-1'' = (d', Inr a)
         \<and> auction_status a = ''IN_AUCTION'' \<and> auction_boxIds a = [''BOX-1'']
         \<and> find_box d' ''BOX-1'' = Some b \<and> box_status b = ''IN_AUCTION''"
    unfolding ids by auto
  from ids w1 w2 a f1 f2 dist b show ?thesis
    by blast
qed

section \<open>What each call does to the document\<close>

lemma fst_createUser:
  "boxes (fst (createUser d u p n r pa i)) = boxes d"
  "auctions (fst (createUser d u p n r pa i)) = auctions d"
  "bids (fst (createUser d u p n r pa i)) = bids d"
  "ledger (fst (createUser d u p n r pa i)) = ledger d"
  by (simp_all add: createUser_def Let_def)

lemma fst_initDemo:
  "boxes (initDemo d a m o') = boxes d"
  "auctions (initDemo d a m o') = auctions d"
  "bids (initDemo d a m o') = bids d"
  "ledger (initDemo d a m o') = ledger d"
  by (simp_all add: initDemo_def)

lemma createBox_cases:
  obtains box where "box_status box = ''WIP''" and "box_parts box = []"
    and "createBox fa d s data i = (d\<lparr>boxes := boxes d @ [box]\<rparr>, Inr box)"
proof -
  have "createBox fa d s data i =
      (d\<lparr>boxes := boxes d @ [projr (snd (createBox fa d s data i))]\<rparr>, Inr (projr (snd (createBox fa d s data i))))"
    "box_status (projr (snd (createBox fa d s data i))) = ''WIP''"
    "box_parts (projr (snd (createBox fa d s data i))) = []"
    by (simp_all add: createBox_def Let_def)
  then show ?thesis using that by blast
qed

lemma addPart_cases:
  obtains (err) e where "addPart lc d k part i = (d, Inl e)"
  | (ok) box m p where "find_box d k = Some box"
      and "addPart lc d k part i =
         (d\<lparr>boxes := update_first (\<lambda>x. box_id x = k)
              (\<lambda>x. x\<lparr>box_material := m, box_parts := box_parts x @ [p]\<rparr>) (boxes d)\<rparr>, Inr p)"
proof (cases "find_box d k")
  case None
  then have "addPart lc d k part i = (d, Inl BoxNotFound)" by (simp add: addPart_def)
  then show ?thesis by (rule err)
next
  case (Some box)
  show ?thesis
  proof (cases "isl (snd (addPart lc d k part i))")
    case True
    with Some have "addPart lc d k part i = (d, Inl (projl (snd (addPart lc d k part i))))"
      by (auto simp: addPart_def Let_def split: if_splits)
    then show ?thesis by (rule err)
  next
    case False
    with Some have "addPart lc d k part i =
         (d\<lparr>boxes := update_first (\<lambda>x. box_id x = k)
              (\<lambda>x. x\<lparr>box_material :=
                       (if box_material box = [] \<and> str_or (pd_name part) [] \<noteq> []
                        then str_or (pd_name part) [] else box_material box),
                     box_parts := box_parts x @ [projr (snd (addPart lc d k part i))]\<rparr>) (boxes d)\<rparr>,
          Inr (projr (snd (addPart lc d k part i))))"
      by (auto simp: addPart_def Let_def split: if_splits)
    with Some show ?thesis by (rule ok)
  qed
qed

lemma finalizeBox_cases:
  obtains (err) e where "finalizeBox d k = (d, Inl e)"
  | (ok) box where "find_box d k = Some box" and "box_parts box \<noteq> []" and "box_status box = ''WIP''"
      and "finalizeBox d k =
         (d\<lparr>boxes := update_first (\<lambda>x. box_id x = k)
              (\<lambda>x. x\<lparr>box_status := ''FINISHED''\<rparr>) (boxes d)\<rparr>,
          Inr (box\<lparr>box_status := ''FINISHED''\<rparr>))"
proof (cases "find_box d k")
  case None
  then have "finalizeBox d k = (d, Inl BoxNotFound)" by (simp add: finalizeBox_def)
  then show ?thesis by (rule err)
next
  case (Some box)
  show ?thesis
  proof (cases "box_parts box \<noteq> [] \<and> box_status box = ''WIP''")
    case True
    with Some have "finalizeBox d k =
         (d\<lparr>boxes := update_first (\<lambda>x. box_id x = k)
              (\<lambda>x. x\<lparr>box_status := ''FINISHED''\<rparr>) (boxes d)\<rparr>,
          Inr (box\<lparr>box_status := ''FINISHED''\<rparr>))"
      by (simp add: finalizeBox_def)
    with Some True show ?thesis by (blast intro: ok)
  next
    case False
    with Some have "finalizeBox d k = (d, Inl (if box_parts box = [] then EmptyBox else InvalidBoxState))"
      by (auto simp: finalizeBox_def)
    then show ?thesis by (rule err)
  qed
qed

lemma createAuction_cases:
  obtains (err) e where "createAuction d s data i = (d, Inl e)"
  | (ok) a where "validate_boxes d (ad_boxIds data) = None"
      and "auction_boxIds a = ad_boxIds data"
      and "createAuction d s data i =
         (mark_boxes (d\<lparr>auctions := auctions d @ [a]\<rparr>) (ad_boxIds data) ''IN_AUCTION'', Inr a)"
proof (cases "validate_boxes d (ad_boxIds data)")
  case None
  have "auction_boxIds (projr (snd (createAuction d s data i))) = ad_boxIds data"
    and "createAuction d s data i =
       (mark_boxes (d\<lparr>auctions := auctions d @ [projr (snd (createAuction d s data i))]\<rparr>)
          (ad_boxIds data) ''IN_AUCTION'', Inr (projr (snd (createAuction d s data i))))"
    by (simp_all add: createAuction_def Let_def None)
  with None show ?thesis by (rule ok)
next
  case (Some e)
  then have "createAuction d s data i = (d, Inl e)" by (simp add: createAuction_def)
  then show ?thesis by (rule err)
qed

lemma submitBid_cases:
  obtains (err) e where "submitBid pf fa d bu au offers i = (d, Inl e)"
  | (ok) bid where
      "submitBid pf fa d bu au offers i =
         (d\<lparr>bids := bids d @ [bid],
            auctions := update_first (\<lambda>a. auction_id a = au)
              (\<lambda>a. a\<lparr>auction_bids := auction_bids a @ [bid_id bid]\<rparr>) (auctions d)\<rparr>, Inr bid)"
proof (cases "isl (snd (submitBid pf fa d bu au offers i))")
  case True
  then have "submitBid pf fa d bu au offers i = (d, Inl (projl (snd (submitBid pf fa d bu au offers i))))"
    by (auto simp: submitBid_def Let_def split: option.splits if_splits)
  then show ?thesis by (rule err)
next
  case False
  then have "submitBid pf fa d bu au offers i =
         (d\<lparr>bids := bids d @ [projr (snd (submitBid pf fa d bu au offers i))],
            auctions := update_first (\<lambda>a. auction_id a = au)
              (\<lambda>a. a\<lparr>auction_bids := auction_bids a
                     @ [bid_id (projr (snd (submitBid pf fa d bu au offers i)))]\<rparr>) (auctions d)\<rparr>,
          Inr (projr (snd (submitBid pf fa d bu au offers i))))"
    by (auto simp: submitBid_def Let_def split: option.splits if_splits)
  then show ?thesis by (rule ok)
qed

lemma setBidSellerStatus_cases:
  obtains (err) e where "setBidSellerStatus d k a = (d, Inl e)"
  | (accept) bid where "a" and "find_bid d k = Some bid"
      and "setBidSellerStatus d k a =
        (d\<lparr>bids := update_first (\<lambda>b. bid_id b = k)
             (\<lambda>b. b\<lparr>bid_status := ''SELLER_ACCEPTED'', bid_sellerApproved := True\<rparr>) (bids d)\<rparr>,
         Inr (bid\<lparr>bid_status := ''SELLER_ACCEPTED'', bid_sellerApproved := True\<rparr>))"
  | (reject) bid where "\<not> a" and "find_bid d k = Some bid"
      and "setBidSellerStatus d k a =
        (d\<lparr>bids := update_first (\<lambda>b. bid_id b = k)
             (\<lambda>b. b\<lparr>bid_status := ''SELLER_REJECTED''\<rparr>) (bids d)\<rparr>,
         Inr (bid\<lparr>bid_status := ''SELLER_REJECTED''\<rparr>))"
proof (cases "find_bid d k")
  case None
  then have "setBidSellerStatus d k a = (d, Inl BidNotFound)" by (simp add: setBidSellerStatus_def)
  then show ?thesis by (rule err)
next
  case (Some bid)
  show ?thesis
  proof (cases a)
    case True
    with Some show ?thesis
      by (intro accept [of bid]) (simp_all add: setBidSellerStatus_def Let_def)
  next
    case False
    with Some show ?thesis
      by (intro reject [of bid]) (simp_all add: setBidSellerStatus_def Let_def)
  qed
qed

lemma setBidAdminStatus_cases:
  obtains (err) e where "setBidAdminStatus d k a tx now = (d, Inl e)"
  | (reject) bid where "\<not> a" and "find_bid d k = Some bid"
      and "bid_status bid = ''SELLER_ACCEPTED''"
      and "setBidAdminStatus d k a tx now =
        (d\<lparr>bids := update_first (\<lambda>b. bid_id b = k)
             (\<lambda>b. b\<lparr>bid_status := ''ADMIN_REJECTED''\<rparr>) (bids d)\<rparr>,
         Inr (bid\<lparr>bid_status := ''ADMIN_REJECTED''\<rparr>))"
  | (approve) bid auction e where "a" and "find_bid d k = Some bid"
      and "bid_status bid = ''SELLER_ACCEPTED''"
      and "find_auction d (bid_auctionId bid) = Some auction"
      and "setBidAdminStatus d k a tx now =
        ((mark_boxes
           (d\<lparr>bids := update_first (\<lambda>b. bid_id b = k)
                 (\<lambda>b. b\<lparr>bid_status := ''ADMIN_APPROVED'', bid_adminApproved := True\<rparr>) (bids d),
              auctions := update_first (\<lambda>x. auction_id x = bid_auctionId bid)
                 (\<lambda>x. x\<lparr>auction_status := ''SOLD''\<rparr>) (auctions d)\<rparr>)
           (auction_boxIds auction) ''SOLD'')\<lparr>ledger := ledger d @ [e]\<rparr>,
         Inr (bid\<lparr>bid_status := ''ADMIN_APPROVED'', bid_adminApproved := True\<rparr>))"
proof (cases "find_bid d k")
  case None
  then have "setBidAdminStatus d k a tx now = (d, Inl BidNotFound)"
    by (simp add: setBidAdminStatus_def)
  then show ?thesis by (rule err)
next
  case (Some bid)
  show ?thesis
  proof (cases "bid_status bid = ''SELLER_ACCEPTED''")
    case False
    with Some have "setBidAdminStatus d k a tx now = (d, Inl PreconditionFailed)"
      by (simp add: setBidAdminStatus_def)
    then show ?thesis by (rule err)
  next
    case acc: True
    show ?thesis
    proof (cases "find_auction d (bid_auctionId bid)")
      case None
      with Some acc have "setBidAdminStatus d k a tx now = (d, Inl AuctionNotFound)"
        by (simp add: setBidAdminStatus_def)
      then show ?thesis by (rule err)
    next
      case (Some auction)
      show ?thesis
      proof (cases a)
        case True
        show ?thesis
          by (rule approve [OF True \<open>find_bid d k = Some bid\<close> acc Some])
             (simp add: True admin_approve_eq [OF \<open>find_bid d k = Some bid\<close> acc Some])
      next
        case False
        show ?thesis
          by (rule reject [OF False \<open>find_bid d k = Some bid\<close> acc])
             (simp add: False setBidAdminStatus_def Let_def \<open>find_bid d k = Some bid\<close> acc Some)
      qed
    qed
  qed
qed

section \<open>The ledger\<close>

lemma ledger_step:
  "ledger (step lc pf fa d c) = ledger d
   \<or> (is_approval c \<and> succeeds lc pf fa d c \<and> (\<exists>e. ledger (step lc pf fa d c) = ledger d @ [e]))"
proof (cases c)
  case (SetBidAdminStatus k a tx now)
  show ?thesis
    by (cases rule: setBidAdminStatus_cases [of d k a tx now]) (simp_all add: SetBidAdminStatus)
next
  case (AddPart k part i)
  show ?thesis by (cases rule: addPart_cases [of lc d k part i]) (simp_all add: AddPart)
next
  case (FinalizeBox k)
  show ?thesis by (cases rule: finalizeBox_cases [of d k]) (simp_all add: FinalizeBox)
next
  case (CreateAuction s data i)
  show ?thesis by (cases rule: createAuction_cases [of d s data i]) (simp_all add: CreateAuction)
next
  case (SubmitBid bu au offers i)
  show ?thesis by (cases rule: submitBid_cases [of pf fa d bu au offers i]) (simp_all add: SubmitBid)
next
  case (SetBidSellerStatus k a)
  show ?thesis by (cases rule: setBidSellerStatus_cases [of d k a]) (simp_all add: SetBidSellerStatus)
next
  case (CreateBox s data i)
  show ?thesis by (rule createBox_cases [of fa d s data i]) (simp add: CreateBox)
qed (simp_all add: fst_createUser fst_initDemo)

lemma ledger_step_approval:
  assumes "is_approval c" and "succeeds lc pf fa d c"
  shows "\<exists>e. ledger (step lc pf fa d c) = ledger d @ [e]"
proof (cases c)
  case (SetBidAdminStatus k a tx now)
  with assms show ?thesis
    by (cases rule: setBidAdminStatus_cases [of d k a tx now]) simp_all
qed (use assms in simp_all)

section \<open>A bid that is not seller-accepted\<close>

lemma not_accepted_step:
  assumes "find_bid d b = Some bid" and "bid_status bid \<noteq> ''SELLER_ACCEPTED''"
    and "c \<noteq> SetBidSellerStatus b True"
  shows "(\<exists>bid'. find_bid (step lc pf fa d c) b = Some bid' \<and> bid_status bid' \<noteq> ''SELLER_ACCEPTED'')
     \<and> \<not> (is_approval_of b c \<and> succeeds lc pf fa d c)"
proof (cases c)
  case (SetBidAdminStatus k a tx now)
  show ?thesis
  proof (cases "k = b")
    case True
    with assms have "setBidAdminStatus d k a tx now = (d, Inl PreconditionFailed)"
      by (simp add: setBidAdminStatus_def)
    with assms show ?thesis by (simp add: SetBidAdminStatus)
  next
    case False
    then show ?thesis
      using assms(1,2)
      by (cases rule: setBidAdminStatus_cases [of d k a tx now])
         (simp_all add: SetBidAdminStatus find_bid_def find_update_first_other)
  qed
next
  case (SetBidSellerStatus k a)
  show ?thesis
  proof (cases "k = b")
    case True
    with assms(3) SetBidSellerStatus have "\<not> a" by simp
    with True assms(1,2) show ?thesis
      by (simp add: SetBidSellerStatus setBidSellerStatus_def Let_def
          find_bid_def find_update_first_same)
  next
    case False
    then show ?thesis
      using assms(1,2)
      by (cases rule: setBidSellerStatus_cases [of d k a])
         (simp_all add: SetBidSellerStatus find_bid_def find_update_first_other)
  qed
next
  case (SubmitBid bu au offers i)
  show ?thesis
    using assms(1,2)
    by (cases rule: submitBid_cases [of pf fa d bu au offers i])
       (simp_all add: SubmitBid find_bid_def find_append)
next
  case (AddPart k part i)
  show ?thesis using assms(1,2)
    by (cases rule: addPart_cases [of lc d k part i]) (simp_all add: AddPart find_bid_def)
next
  case (FinalizeBox k)
  show ?thesis using assms(1,2)
    by (cases rule: finalizeBox_cases [of d k]) (simp_all add: FinalizeBox find_bid_def)
next
  case (CreateAuction s data i)
  show ?thesis using assms(1,2)
    by (cases rule: createAuction_cases [of d s data i]) (simp_all add: CreateAuction find_bid_def)
next
  case (CreateBox s data i)
  obtain box where "createBox fa d s data i = (d\<lparr>boxes := boxes d @ [box]\<rparr>, Inr box)"
    by (rule createBox_cases)
  with assms(1,2) show ?thesis
    by (simp add: CreateBox find_bid_def)
next
  case (CreateUser u p n r pa i)
  show ?thesis using assms(1,2)
    by (simp add: CreateUser find_bid_def fst_createUser)
next
  case (InitDemo a m o')
  show ?thesis using assms(1,2)
    by (simp add: InitDemo find_bid_def fst_initDemo)
qed

lemma not_accepted_run:
  assumes "find_bid d b = Some bid" and "bid_status bid \<noteq> ''SELLER_ACCEPTED''"
    and "SetBidSellerStatus b True \<notin> set ops"
  shows "count_ok lc pf fa (is_approval_of b) d ops = 0
     \<and> (\<exists>bid'. find_bid (run lc pf fa d ops) b = Some bid' \<and> bid_status bid' \<noteq> ''SELLER_ACCEPTED'')"
  using assms
proof (induction ops arbitrary: d bid)
  case Nil
  then show ?case by (simp add: run_def)
next
  case (Cons c ops)
  from Cons.prems have c: "c \<noteq> SetBidSellerStatus b True" by auto
  from not_accepted_step [OF Cons.prems(1,2) c, of lc pf fa]
  obtain bid' where s: "find_bid (step lc pf fa d c) b = Some bid'"
      "bid_status bid' \<noteq> ''SELLER_ACCEPTED''" "\<not> (is_approval_of b c \<and> succeeds lc pf fa d c)"
    by blast
  from Cons.IH [OF s(1,2)] Cons.prems(3)
  have "count_ok lc pf fa (is_approval_of b) (step lc pf fa d c) ops = 0
      \<and> (\<exists>bid'. find_bid (run lc pf fa (step lc pf fa d c) ops) b = Some bid'
            \<and> bid_status bid' \<noteq> ''SELLER_ACCEPTED'')"
    by simp
  with s(3) show ?case by (simp add: run_def)
qed

text \<open>
  C3, as the code has it. A call appends a ledger entry only if it is a successful
  \<^verbatim>\<open>setBidAdminStatus(_, true)\<close>, and each such call appends exactly one. Once
  \<^verbatim>\<open>setBidAdminStatus(b, true)\<close> has succeeded, no sequence of calls in which
  \<^verbatim>\<open>setBidSellerStatus(b, true)\<close> does not occur contains a successful approval of
  \<open>b\<close>: no second entry is written for the bid, which stays in a status other than
  \<open>SELLER_ACCEPTED\<close>.
\<close>

theorem ledger_once_unless_reaccepted:
  assumes "setBidAdminStatus d b True txId now = (d0, Inr bid0)"
    and "SetBidSellerStatus b True \<notin> set ops"
  shows "approvals lc pf fa b d0 ops = 0
     \<and> (\<exists>bid. find_bid (run lc pf fa d0 ops) b = Some bid \<and> bid_status bid \<noteq> ''SELLER_ACCEPTED'')
     \<and> (\<forall>d' c. ledger (step lc pf fa d' c) = ledger d'
           \<or> (is_approval c \<and> succeeds lc pf fa d' c \<and> (\<exists>e. ledger (step lc pf fa d' c) = ledger d' @ [e])))
     \<and> (\<forall>d' c. is_approval c \<and> succeeds lc pf fa d' c \<longrightarrow> (\<exists>e. ledger (step lc pf fa d' c) = ledger d' @ [e]))"
proof -
  from setBidAdminStatus_InrD [OF assms(1)] obtain bid a where
    h: "find_bid d b = Some bid" "bid_status bid = ''SELLER_ACCEPTED''"
       "find_auction d (bid_auctionId bid) = Some a"
    by blast
  have f: "find_bid d0 b = Some (bid\<lparr>bid_status := ''ADMIN_APPROVED'', bid_adminApproved := True\<rparr>)"
    using find_bid_approved [OF h, of txId now] by (simp add: assms(1))
  have "bid_status (bid\<lparr>bid_status := ''ADMIN_APPROVED'', bid_adminApproved := True\<rparr>) \<noteq> ''SELLER_ACCEPTED''"
    by simp
  from not_accepted_run [OF f this assms(2), of lc pf fa] ledger_step [of lc pf fa] ledger_step_approval [of _ lc pf fa]
  show ?thesis
    unfolding approvals_def by blast
qed

theorem ledger_once_unless_reaccepted_witness:
  "setBidAdminStatus demo_accepted ''BID-1'' True ''TX-1'' ''2024-05-01T10:00:00.000Z''
      = (demo_sold, Inr (demo_bid\<lparr>bid_status := ''ADMIN_APPROVED'', bid_adminApproved := True\<rparr>))
   \<and> SetBidSellerStatus ''BID-1'' True \<notin> set demo_retry
   \<and> approvals ascii_toLowerCase digits_parseFloat exact_add ''BID-1'' demo_sold demo_retry = 0
   \<and> is_approval (SetBidAdminStatus ''BID-1'' True ''TX-1'' ''2024-05-01T10:00:00.000Z'')
   \<and> succeeds ascii_toLowerCase digits_parseFloat exact_add demo_accepted
         (SetBidAdminStatus ''BID-1'' True ''TX-1'' ''2024-05-01T10:00:00.000Z'')
   \<and> (\<exists>e. ledger (step ascii_toLowerCase digits_parseFloat exact_add demo_accepted
               (SetBidAdminStatus ''BID-1'' True ''TX-1'' ''2024-05-01T10:00:00.000Z''))
          = ledger demo_accepted @ [e])"
proof -
  have a: "is_approval (SetBidAdminStatus ''BID-1'' True ''TX-1'' ''2024-05-01T10:00:00.000Z'')"
    by simp
  have h: "setBidAdminStatus demo_accepted ''BID-1'' True ''TX-1'' ''2024-05-01T10:00:00.000Z''
      = (demo_sold, Inr (demo_bid\<lparr>bid_status := ''ADMIN_APPROVED'', bid_adminApproved := True\<rparr>))"
    by code_simp
  have n: "SetBidSellerStatus ''BID-1'' True \<notin> set demo_retry"
    by (simp add: demo_retry_def)
  have s: "succeeds ascii_toLowerCase digits_parseFloat exact_add demo_accepted
         (SetBidAdminStatus ''BID-1'' True ''TX-1'' ''2024-05-01T10:00:00.000Z'')"
    by (simp add: h)
  from ledger_once_unless_reaccepted [OF h n, of ascii_toLowerCase digits_parseFloat exact_add] h n a s
  show ?thesis by blast
qed

text \<open>
  C3 as stated fails: in the scenario continued by a second seller acceptance and a
  second approval of the same bid, both approvals succeed and the ledger holds two
  entries for the auction, the buyer and the total of that bid.
\<close>

theorem ledger_once_counterexample:
  "approvals ascii_toLowerCase digits_parseFloat exact_add ''BID-1'' empty_db demo_resettle = 2
   \<and> map tx_id (ledger (run ascii_toLowerCase digits_parseFloat exact_add empty_db demo_resettle)) = [''TX-1'', ''TX-2'']
   \<and> map tx_auctionId (ledger (run ascii_toLowerCase digits_parseFloat exact_add empty_db demo_resettle)) = [''AUC-1'', ''AUC-1'']
   \<and> map tx_buyerId (ledger (run ascii_toLowerCase digits_parseFloat exact_add empty_db demo_resettle)) = [''USR-3'', ''USR-3'']
   \<and> map tx_total (ledger (run ascii_toLowerCase digits_parseFloat exact_add empty_db demo_resettle)) = [Num 50, Num 50]"
  by code_simp

section \<open>Boxes along a run\<close>

lemma set_update_first_find:
  "y \<in> set (update_first P f xs) \<Longrightarrow> y \<in> set xs \<or> (\<exists>x. find P xs = Some x \<and> y = f x)"
  by (induction xs) (auto split: if_splits)

lemma find_box_update_first:
  assumes "\<And>x. box_id (f x) = box_id x"
  shows "find_box (d\<lparr>boxes := update_first (\<lambda>x. box_id x = k') f (boxes d)\<rparr>) k
           = (if k = k' then map_option f (find_box d k) else find_box d k)"
  using assms by (simp add: find_box_def find_update_first_same find_update_first_other)

lemma find_box_mem: "find_box d k = Some b \<Longrightarrow> b \<in> set (boxes d)"
  by (auto simp: find_box_def dest: find_key_eq)

lemma find_auction_mem: "find_auction d k = Some a \<Longrightarrow> a \<in> set (auctions d)"
  by (auto simp: find_auction_def dest: find_key_eq)

lemma set_boxes_mark_boxes:
  "y \<in> set (boxes (mark_boxes d ids st)) \<Longrightarrow>
     y \<in> set (boxes d) \<or> (\<exists>i \<in> set ids. \<exists>b. find_box d i = Some b \<and> y = b\<lparr>box_status := st\<rparr>)"
  unfolding mark_boxes_def
proof (induction ids arbitrary: d)
  case Nil
  then show ?case by simp
next
  case (Cons k ids)
  from Cons.prems have "y \<in> set (boxes (foldl (\<lambda>d' bx. setBoxStatus d' bx st) (setBoxStatus d k st) ids))"
    by simp
  from Cons.IH [OF this]
  consider "y \<in> set (boxes (setBoxStatus d k st))"
    | i b where "i \<in> set ids" "find_box (setBoxStatus d k st) i = Some b" "y = b\<lparr>box_status := st\<rparr>"
    by blast
  then show ?case
  proof cases
    case 1
    then have "y \<in> set (boxes d) \<or> (\<exists>x. find_box d k = Some x \<and> y = x\<lparr>box_status := st\<rparr>)"
      unfolding setBoxStatus_def find_box_def by (auto dest: set_update_first_find)
    then show ?thesis by auto
  next
    case 2
    then show ?thesis
      by (auto simp: find_box_setBoxStatus split: if_splits)
  qed
qed

lemma find_box_step:
  assumes "find_box d k = Some b"
  shows "\<exists>b'. find_box (step lc pf fa d c) k = Some b'
     \<and> (box_status b \<noteq> ''WIP'' \<longrightarrow> box_status b' \<noteq> ''WIP'')
     \<and> (box_parts b \<noteq> [] \<longrightarrow> box_parts b' \<noteq> [])"
proof (cases c)
  case (InitDemo a m o')
  have "find_box (initDemo d a m o') k = find_box d k"
    by (rule find_box_cong) (simp add: fst_initDemo)
  with assms show ?thesis by (simp add: InitDemo)
next
  case (CreateUser u p n r pa i)
  have "find_box (fst (createUser d u p n r pa i)) k = find_box d k"
    by (rule find_box_cong) (simp add: fst_createUser)
  with assms show ?thesis by (simp add: CreateUser)
next
  case (CreateBox s data i)
  obtain box where "createBox fa d s data i = (d\<lparr>boxes := boxes d @ [box]\<rparr>, Inr box)"
    by (rule createBox_cases)
  with assms show ?thesis
    by (simp add: CreateBox find_box_def find_append)
next
  case (AddPart k' part i)
  show ?thesis
    using assms
    by (cases rule: addPart_cases [of lc d k' part i])
       (auto simp: AddPart find_box_update_first)
next
  case (FinalizeBox k')
  show ?thesis
    using assms
    by (cases rule: finalizeBox_cases [of d k'])
       (auto simp: FinalizeBox find_box_update_first)
next
  case (CreateAuction s data i)
  have fb: "find_box (d\<lparr>auctions := xs\<rparr>) j = find_box d j" for xs j
    by (simp add: find_box_def)
  show ?thesis
    using assms
    by (cases rule: createAuction_cases [of d s data i])
       (auto simp: CreateAuction find_box_mark_boxes fb)
next
  case (SubmitBid bu au offers i)
  show ?thesis
    using assms
    by (cases rule: submitBid_cases [of pf fa d bu au offers i])
       (auto simp: SubmitBid find_box_def)
next
  case (SetBidSellerStatus k' a)
  show ?thesis
    using assms
    by (cases rule: setBidSellerStatus_cases [of d k' a])
       (auto simp: SetBidSellerStatus find_box_def)
next
  case (SetBidAdminStatus k' a tx now)
  have fb: "find_box (d'\<lparr>ledger := xs\<rparr>) j = find_box d' j" for d' xs j
    by (simp add: find_box_def)
  have fb2: "find_box (d\<lparr>bids := xs, auctions := ys\<rparr>) j = find_box d j" for xs ys j
    by (simp add: find_box_def)
  have fb3: "find_box (d\<lparr>bids := xs\<rparr>) j = find_box d j" for xs j
    by (simp add: find_box_def)
  show ?thesis
    using assms
    by (cases rule: setBidAdminStatus_cases [of d k' a tx now])
       (auto simp: SetBidAdminStatus fb fb2 fb3 find_box_mark_boxes)
qed

lemma boxes_okD1:
  "boxes_ok d \<Longrightarrow> b \<in> set (boxes d) \<Longrightarrow> box_status b \<noteq> ''WIP'' \<Longrightarrow> box_parts b \<noteq> []"
  by (simp add: boxes_ok_def)

lemma boxes_okD2:
  "boxes_ok d \<Longrightarrow> a \<in> set (auctions d) \<Longrightarrow> i \<in> set (auction_boxIds a)
     \<Longrightarrow> \<exists>b. find_box d i = Some b \<and> box_parts b \<noteq> []"
  by (simp add: boxes_ok_def)

lemma boxes_step_ok:
  assumes "boxes_ok d" and "y \<in> set (boxes (step lc pf fa d c))" and "box_status y \<noteq> ''WIP''"
  shows "box_parts y \<noteq> []"
proof (cases c)
  case (InitDemo a m o')
  with assms show ?thesis by (auto simp: fst_initDemo dest: boxes_okD1)
next
  case (CreateUser u p n r pa i)
  with assms show ?thesis by (auto simp: fst_createUser dest: boxes_okD1)
next
  case (CreateBox s data i)
  obtain box where "box_status box = ''WIP''"
    and "createBox fa d s data i = (d\<lparr>boxes := boxes d @ [box]\<rparr>, Inr box)"
    by (rule createBox_cases)
  with assms show ?thesis
    by (auto simp: CreateBox dest: boxes_okD1)
next
  case (AddPart k part i)
  show ?thesis
    using assms
    by (cases rule: addPart_cases [of lc d k part i])
       (auto simp: AddPart dest: boxes_okD1 dest!: set_update_first_find)
next
  case (FinalizeBox k)
  show ?thesis
  proof (cases rule: finalizeBox_cases [of d k])
    case (err e)
    with assms show ?thesis by (auto simp: FinalizeBox dest: boxes_okD1)
  next
    case (ok box)
    from assms(2) have "y \<in> set (update_first (\<lambda>x. box_id x = k)
        (\<lambda>x. x\<lparr>box_status := ''FINISHED''\<rparr>) (boxes d))"
      by (simp add: FinalizeBox ok)
    from set_update_first_find [OF this] ok(1,2) assms(1,3) show ?thesis
      by (auto simp: find_box_def dest: boxes_okD1)
  qed
next
  case (CreateAuction s data i)
  show ?thesis
  proof (cases rule: createAuction_cases [of d s data i])
    case (err e)
    with assms show ?thesis by (auto simp: CreateAuction dest: boxes_okD1)
  next
    case (ok a)
    from assms(2) have "y \<in> set (boxes (mark_boxes (d\<lparr>auctions := auctions d @ [a]\<rparr>)
        (ad_boxIds data) ''IN_AUCTION''))"
      by (simp add: CreateAuction ok)
    from set_boxes_mark_boxes [OF this]
    consider "y \<in> set (boxes d)"
      | j b where "j \<in> set (ad_boxIds data)" "find_box d j = Some b"
          "y = b\<lparr>box_status := ''IN_AUCTION''\<rparr>"
      by (auto simp: find_box_def)
    then show ?thesis
    proof cases
      case 1
      with assms show ?thesis by (auto dest: boxes_okD1)
    next
      case 2
      from ok(1) 2(1,2) have "box_status b = ''FINISHED''"
        by (auto simp: validate_boxes_None_iff)
      with boxes_okD1 [OF assms(1) find_box_mem [OF 2(2)]] 2(3) show ?thesis
        by simp
    qed
  qed
next
  case (SubmitBid bu au offers i)
  show ?thesis
    using assms
    by (cases rule: submitBid_cases [of pf fa d bu au offers i])
       (auto simp: SubmitBid dest: boxes_okD1)
next
  case (SetBidSellerStatus k a)
  show ?thesis
    using assms
    by (cases rule: setBidSellerStatus_cases [of d k a])
       (auto simp: SetBidSellerStatus dest: boxes_okD1)
next
  case (SetBidAdminStatus k a tx now)
  show ?thesis
  proof (cases rule: setBidAdminStatus_cases [of d k a tx now])
    case (err e)
    with assms show ?thesis by (auto simp: SetBidAdminStatus dest: boxes_okD1)
  next
    case (reject bid)
    with assms show ?thesis by (auto simp: SetBidAdminStatus dest: boxes_okD1)
  next
    case (approve bid auction e)
    let ?d1 = "d\<lparr>bids := update_first (\<lambda>b. bid_id b = k)
                 (\<lambda>b. b\<lparr>bid_status := ''ADMIN_APPROVED'', bid_adminApproved := True\<rparr>) (bids d),
              auctions := update_first (\<lambda>x. auction_id x = bid_auctionId bid)
                 (\<lambda>x. x\<lparr>auction_status := ''SOLD''\<rparr>) (auctions d)\<rparr>"
    from assms(2) have "y \<in> set (boxes (mark_boxes ?d1 (auction_boxIds auction) ''SOLD''))"
      by (simp add: SetBidAdminStatus approve(5))
    from set_boxes_mark_boxes [OF this]
    consider "y \<in> set (boxes d)"
      | j b where "j \<in> set (auction_boxIds auction)" "find_box d j = Some b"
          "y = b\<lparr>box_status := ''SOLD''\<rparr>"
      by (auto simp: find_box_def)
    then show ?thesis
    proof cases
      case 1
      with assms show ?thesis by (auto dest: boxes_okD1)
    next
      case 2
      from boxes_okD2 [OF assms(1) find_auction_mem [OF approve(4)] 2(1)] 2(2,3)
      show ?thesis by auto
    qed
  qed
qed

lemma auctions_step:
  assumes "a' \<in> set (auctions (step lc pf fa d c))"
  shows "(\<exists>a \<in> set (auctions d). auction_boxIds a' = auction_boxIds a)
     \<or> (\<forall>i \<in> set (auction_boxIds a'). \<exists>b. find_box d i = Some b \<and> box_status b = ''FINISHED'')"
proof (cases c)
  case (InitDemo a m o')
  with assms show ?thesis by (auto simp: fst_initDemo)
next
  case (CreateUser u p n r pa i)
  with assms show ?thesis by (auto simp: fst_createUser)
next
  case (CreateBox s data i)
  obtain box where "createBox fa d s data i = (d\<lparr>boxes := boxes d @ [box]\<rparr>, Inr box)"
    by (rule createBox_cases)
  with assms show ?thesis by (auto simp: CreateBox)
next
  case (AddPart k part i)
  show ?thesis using assms
    by (cases rule: addPart_cases [of lc d k part i]) (auto simp: AddPart)
next
  case (FinalizeBox k)
  show ?thesis using assms
    by (cases rule: finalizeBox_cases [of d k]) (auto simp: FinalizeBox)
next
  case (CreateAuction s data i)
  show ?thesis using assms
    by (cases rule: createAuction_cases [of d s data i])
       (auto simp: CreateAuction validate_boxes_None_iff)
next
  case (SubmitBid bu au offers i)
  show ?thesis using assms
    by (cases rule: submitBid_cases [of pf fa d bu au offers i])
       (auto simp: SubmitBid dest!: set_update_first)
next
  case (SetBidSellerStatus k a)
  show ?thesis using assms
    by (cases rule: setBidSellerStatus_cases [of d k a]) (auto simp: SetBidSellerStatus)
next
  case (SetBidAdminStatus k a tx now)
  show ?thesis using assms
    by (cases rule: setBidAdminStatus_cases [of d k a tx now])
       (auto simp: SetBidAdminStatus dest!: set_update_first)
qed

lemma boxes_ok_step:
  assumes "boxes_ok d"
  shows "boxes_ok (step lc pf fa d c)"
  unfolding boxes_ok_def
proof (intro conjI ballI impI)
  fix y assume "y \<in> set (boxes (step lc pf fa d c))" and "box_status y \<noteq> ''WIP''"
  with assms show "box_parts y \<noteq> []" by (rule boxes_step_ok)
next
  fix a' i assume a': "a' \<in> set (auctions (step lc pf fa d c))" and i: "i \<in> set (auction_boxIds a')"
  have "\<exists>b. find_box d i = Some b \<and> box_parts b \<noteq> []"
    using auctions_step [OF a'] i assms
    by (fastforce dest: boxes_okD2 boxes_okD1 find_box_mem)
  then obtain b where b: "find_box d i = Some b" "box_parts b \<noteq> []" by blast
  from find_box_step [OF b(1), of lc pf fa c] b(2)
  show "\<exists>b. find_box (step lc pf fa d c) i = Some b \<and> box_parts b \<noteq> []"
    by blast
qed

lemma boxes_ok_reachable: "reachable lc pf fa d \<Longrightarrow> boxes_ok d"
  by (induction rule: reachable.induct) (simp_all add: boxes_ok_def empty_db_def boxes_ok_step [unfolded boxes_ok_def])

section \<open>Finalising at most once\<close>

lemma finalize_fails:
  assumes "find_box d k = Some b" and "box_status b \<noteq> ''WIP''"
  shows "\<not> succeeds lc pf fa d (FinalizeBox k)"
  using assms by (simp add: finalizeBox_def)

lemma no_finalize_run:
  assumes "find_box d k = Some b" and "box_status b \<noteq> ''WIP''"
  shows "count_ok lc pf fa (is_finalize_of k) d ops = 0"
  using assms
proof (induction ops arbitrary: d b)
  case Nil
  show ?case by simp
next
  case (Cons c ops)
  from find_box_step [OF Cons.prems(1), of lc pf fa c] Cons.prems(2)
  obtain b' where b': "find_box (step lc pf fa d c) k = Some b'" "box_status b' \<noteq> ''WIP''"
    by blast
  have "\<not> (is_finalize_of k c \<and> succeeds lc pf fa d c)"
    using finalize_fails [OF Cons.prems, of lc pf fa] by (cases c) auto
  with Cons.IH [OF b'] show ?case by simp
qed

lemma finalize_once:
  "count_ok lc pf fa (is_finalize_of k) d ops \<le> 1"
proof (induction ops arbitrary: d)
  case Nil
  show ?case by simp
next
  case (Cons c ops)
  show ?case
  proof (cases "is_finalize_of k c \<and> succeeds lc pf fa d c")
    case True
    then have c: "c = FinalizeBox k" by (cases c) auto
    with True have ok: "\<not> isl (snd (finalizeBox d k))" by simp
    have "\<exists>b. find_box (step lc pf fa d c) k = Some b \<and> box_status b \<noteq> ''WIP''"
      using ok
      by (cases rule: finalizeBox_cases [of d k]) (auto simp: c find_box_update_first)
    then have "count_ok lc pf fa (is_finalize_of k) (step lc pf fa d c) ops = 0"
      by (blast intro: no_finalize_run)
    with True show ?thesis by simp
  next
    case False
    with Cons.IH [of "step lc pf fa d c"] show ?thesis by auto
  qed
qed

lemma reachable_run:
  "reachable lc pf fa d \<Longrightarrow> reachable lc pf fa (run lc pf fa d ops)"
  unfolding run_def by (induction ops arbitrary: d) (auto intro: reachable_step)

text \<open>
  C5. Let \<open>boxId\<close> resolve to a box. If the box has at least one part and status
  \<open>WIP\<close>, \<^verbatim>\<open>finalizeBox\<close> succeeds and the box has status \<open>FINISHED\<close> in the resulting
  document. If the box has no part, the call fails with \<open>EmptyBox\<close>, whatever the
  status. If the status is not \<open>WIP\<close>, the call fails with \<open>InvalidBoxState\<close> and the
  document is unchanged; this holds in every document the operations can build from
  the empty one (there a box that has left \<open>WIP\<close> has a part), and in any document
  for a box that has a part. Along any sequence of calls, from any document, at most
  one \<^verbatim>\<open>finalizeBox(boxId)\<close> succeeds.
\<close>

theorem finalizeBox_spec:
  assumes "find_box d boxId = Some box"
  shows "(box_parts box \<noteq> [] \<and> box_status box = ''WIP'' \<longrightarrow>
            (\<exists>d'. finalizeBox d boxId = (d', Inr (box\<lparr>box_status := ''FINISHED''\<rparr>))
               \<and> find_box d' boxId = Some (box\<lparr>box_status := ''FINISHED''\<rparr>)))
     \<and> (box_parts box = [] \<longrightarrow> finalizeBox d boxId = (d, Inl EmptyBox))
     \<and> (box_status box \<noteq> ''WIP'' \<and> (box_parts box \<noteq> [] \<or> reachable lc pf fa d) \<longrightarrow>
            finalizeBox d boxId = (d, Inl InvalidBoxState))
     \<and> finalizations lc pf fa boxId d ops \<le> 1"
proof (intro conjI impI)
  assume "box_parts box \<noteq> [] \<and> box_status box = ''WIP''"
  with assms show "\<exists>d'. finalizeBox d boxId = (d', Inr (box\<lparr>box_status := ''FINISHED''\<rparr>))
               \<and> find_box d' boxId = Some (box\<lparr>box_status := ''FINISHED''\<rparr>)"
    by (simp add: finalizeBox_def find_box_update_first)
next
  assume "box_parts box = []"
  with assms show "finalizeBox d boxId = (d, Inl EmptyBox)"
    by (simp add: finalizeBox_def)
next
  assume a: "box_status box \<noteq> ''WIP'' \<and> (box_parts box \<noteq> [] \<or> reachable lc pf fa d)"
  then have "box_parts box \<noteq> []"
    using boxes_okD1 [OF boxes_ok_reachable find_box_mem [OF assms]] by blast
  with a assms show "finalizeBox d boxId = (d, Inl InvalidBoxState)"
    by (simp add: finalizeBox_def)
next
  show "finalizations lc pf fa boxId d ops \<le> 1"
    unfolding finalizations_def by (rule finalize_once)
qed

theorem finalizeBox_spec_witness:
  "find_box demo_wip ''BOX-1'' = Some (the (find_box demo_wip ''BOX-1''))
   \<and> box_parts (the (find_box demo_wip ''BOX-1'')) \<noteq> []
   \<and> box_status (the (find_box demo_wip ''BOX-1'')) = ''WIP''
   \<and> finalizeBox demo_wip ''BOX-1''
        = (demo_finished, Inr ((the (find_box demo_wip ''BOX-1''))\<lparr>box_status := ''FINISHED''\<rparr>))
   \<and> find_box demo_created ''BOX-1'' = Some (the (find_box demo_created ''BOX-1''))
   \<and> box_parts (the (find_box demo_created ''BOX-1'')) = []
   \<and> finalizeBox demo_created ''BOX-1'' = (demo_created, Inl EmptyBox)
   \<and> find_box demo_listed ''BOX-1'' = Some (the (find_box demo_listed ''BOX-1''))
   \<and> box_status (the (find_box demo_listed ''BOX-1'')) \<noteq> ''WIP''
   \<and> reachable ascii_toLowerCase digits_parseFloat exact_add demo_listed
   \<and> finalizeBox demo_listed ''BOX-1'' = (demo_listed, Inl InvalidBoxState)
   \<and> finalizations ascii_toLowerCase digits_parseFloat exact_add ''BOX-1'' demo_wip
        [FinalizeBox ''BOX-1'', FinalizeBox ''BOX-1''] \<le> 1"
proof -
  have w: "find_box demo_wip ''BOX-1'' = Some (the (find_box demo_wip ''BOX-1''))"
    "box_parts (the (find_box demo_wip ''BOX-1'')) \<noteq> []"
    "box_status (the (find_box demo_wip ''BOX-1'')) = ''WIP''"
    by code_simp+
  have wf: "fst (finalizeBox demo_wip ''BOX-1'') = demo_finished"
    by code_simp
  have c: "find_box demo_created ''BOX-1'' = Some (the (find_box demo_created ''BOX-1''))"
    "box_parts (the (find_box demo_created ''BOX-1'')) = []"
    by code_simp+
  have l: "find_box demo_listed ''BOX-1'' = Some (the (find_box demo_listed ''BOX-1''))"
    "box_status (the (find_box demo_listed ''BOX-1'')) \<noteq> ''WIP''"
    by code_simp+
  have r: "reachable ascii_toLowerCase digits_parseFloat exact_add demo_listed"
    unfolding demo_listed_def by (intro reachable_run reachable_empty)
  from finalizeBox_spec [OF w(1), of ascii_toLowerCase digits_parseFloat exact_add
      "[FinalizeBox ''BOX-1'', FinalizeBox ''BOX-1'']"] w(2,3)
  have 1: "finalizeBox demo_wip ''BOX-1''
        = (demo_finished, Inr ((the (find_box demo_wip ''BOX-1''))\<lparr>box_status := ''FINISHED''\<rparr>))"
    and 4: "finalizations ascii_toLowerCase digits_parseFloat exact_add ''BOX-1'' demo_wip
        [FinalizeBox ''BOX-1'', FinalizeBox ''BOX-1''] \<le> 1"
    using wf by auto
  from finalizeBox_spec [OF c(1), of ascii_toLowerCase digits_parseFloat exact_add "[]"] c(2)
  have 2: "finalizeBox demo_created ''BOX-1'' = (demo_created, Inl EmptyBox)"
    by blast
  from finalizeBox_spec [OF l(1), of ascii_toLowerCase digits_parseFloat exact_add "[]"] l(2) r
  have 3: "finalizeBox demo_listed ''BOX-1'' = (demo_listed, Inl InvalidBoxState)"
    by blast
  from w c l r 1 2 3 4 show ?thesis
    by blast
qed

end
